theory Spec2Isabelle
  imports Complex_Main
begin

section \<open>JavaScript values, as the handlers of server.js see them\<close>

text \<open>
  The request body is what the JSON body parser produced: any JSON value, or nothing
  (\<open>JUndefined\<close>). An object is the list of its own properties. A number is held as the
  text that JavaScript's number-to-string conversion gives it: the handlers only ever ask
  a number whether it is truthy (it is not exactly when that text is \<open>0\<close> or \<open>NaN\<close>) and
  what \<open>String()\<close> makes of it.

  A string is a list of characters, one per UTF-16 code unit; the character type has the
  code units 0 to 255, so the embedding covers strings over that range.

  A thrown value is seen through the two properties the catch block of the download
  handler reads, \<open>err.stderr\<close> and \<open>err.message\<close>, each a string or absent.
\<close>

datatype thrown = Thrown (stderr: "string option") (err_message: "string option")

text \<open>A TypeError of the engine, and an error of a system call: objects with a message and no \<open>stderr\<close>.\<close>

definition TypeError :: "string \<Rightarrow> thrown" where
  "TypeError m = Thrown None (Some m)"

definition SystemError :: "string \<Rightarrow> thrown" where
  "SystemError m = Thrown None (Some m)"

datatype jsval =
    JUndefined
  | JNull
  | JBool bool
  | JNum string
  | JStr string
  | JArr "jsval list"
  | JObj "(string \<times> jsval) list"

fun truthy :: "jsval \<Rightarrow> bool" where
  "truthy JUndefined = False"
| "truthy JNull = False"
| "truthy (JBool b) = b"
| "truthy (JNum n) = (n \<noteq> ''0'' \<and> n \<noteq> ''NaN'')"
| "truthy (JStr s) = (s \<noteq> [])"
| "truthy (JArr xs) = True"
| "truthy (JObj kvs) = True"

text \<open>\<open>a || b\<close> on values.\<close>

definition or_else :: "jsval \<Rightarrow> jsval \<Rightarrow> jsval" where
  "or_else a b = (if truthy a then a else b)"

text \<open>
  Reading a property, as the destructuring \<open>let { platform, url, format, quality } = ...\<close>
  does: a missing property, and any property of a value that is not an object with that
  own key, is \<open>undefined\<close>.
\<close>

definition get_field :: "jsval \<Rightarrow> string \<Rightarrow> jsval" where
  "get_field v k =
     (case v of
        JObj kvs \<Rightarrow> (case map_of kvs k of Some x \<Rightarrow> x | None \<Rightarrow> JUndefined)
      | _ \<Rightarrow> JUndefined)"

fun join_comma :: "string list \<Rightarrow> string" where
  "join_comma [] = []"
| "join_comma [s] = s"
| "join_comma (s # t # ss) = s @ '','' @ join_comma (t # ss)"

text \<open>
  \<open>String(v)\<close>. An array is joined with commas, \<open>undefined\<close> and \<open>null\<close> elements giving the
  empty string. A parsed object gives \<open>[object Object]\<close>, unless it has an own property
  \<open>toString\<close>: that property shadows the inherited method and is not callable, the
  inherited \<open>valueOf\<close> returns the object itself, and the conversion throws a TypeError.
\<close>

fun ToString :: "jsval \<Rightarrow> thrown + string"
  and element_strings :: "jsval list \<Rightarrow> thrown + string list" where
  "ToString JUndefined = Inr ''undefined''"
| "ToString JNull = Inr ''null''"
| "ToString (JBool b) = Inr (if b then ''true'' else ''false'')"
| "ToString (JNum n) = Inr n"
| "ToString (JStr s) = Inr s"
| "ToString (JArr xs) =
     (case element_strings xs of Inl e \<Rightarrow> Inl e | Inr ss \<Rightarrow> Inr (join_comma ss))"
| "ToString (JObj kvs) =
     (if ''toString'' \<in> set (map fst kvs)
      then Inl (TypeError ''Cannot convert object to primitive value'')
      else Inr ''[object Object]'')"
| "element_strings [] = Inr []"
| "element_strings (x # xs) =
     (case (if x = JUndefined \<or> x = JNull then Inr [] else ToString x) of
        Inl e \<Rightarrow> Inl e
      | Inr s \<Rightarrow> (case element_strings xs of Inl e \<Rightarrow> Inl e | Inr ss \<Rightarrow> Inr (s # ss)))"

text \<open>
  \<open>String.prototype.toLowerCase\<close> on the code units 0 to 255: the letters A to Z and the
  capital letters of the upper half (192 to 222 but for the multiplication sign 215) move
  up by 32.
\<close>

definition lower_unit :: "char \<Rightarrow> char" where
  "lower_unit c =
     (let n = (of_char c :: nat) in
      if (65 \<le> n \<and> n \<le> 90) \<or> (192 \<le> n \<and> n \<le> 214) \<or> (216 \<le> n \<and> n \<le> 222)
      then char_of (n + 32) else c)"

definition toLowerCase :: "string \<Rightarrow> string" where
  "toLowerCase s = map lower_unit s"

text \<open>
  \<open>(format || "mp4").toLowerCase()\<close> on a truthy value: only a string has the method; on a
  number, a boolean, an array or a parsed object the property is missing or not callable
  and the call throws a TypeError, with the message Node gives it.
\<close>

definition not_a_function :: string where
  "not_a_function =
     ''(format || '' @ [CHR 0x22] @ ''mp4'' @ [CHR 0x22] @ '').toLowerCase is not a function''"

definition call_toLowerCase :: "jsval \<Rightarrow> thrown + string" where
  "call_toLowerCase v =
     (case v of
        JStr s \<Rightarrow> Inr (toLowerCase s)
      | _ \<Rightarrow> Inl (TypeError not_a_function))"

text \<open>\<open>s.split(/\r?\n/)\<close>: a line feed, with the carriage return before it if there is one, ends a piece.\<close>

fun split_lines :: "string \<Rightarrow> string list" where
  "split_lines [] = [[]]"
| "split_lines (c # cs) =
     (if c = CHR 0x0A then [] # split_lines cs
      else if c = CHR 0x0D \<and> take 1 cs = [CHR 0x0A] then [] # split_lines (drop 1 cs)
      else (case split_lines cs of l # ls \<Rightarrow> (c # l) # ls | [] \<Rightarrow> [[c]]))"

text \<open>\<open>/^https?:\/\//i.test(l)\<close>: the flag \<open>i\<close> lets each letter of the pattern match in either case.\<close>

definition either_case :: "char \<Rightarrow> char \<Rightarrow> char \<Rightarrow> bool" where
  "either_case lo up c = (c = lo \<or> c = up)"

definition is_http :: "string \<Rightarrow> bool" where
  "is_http l =
     (case l of
        h # t # t' # p # r \<Rightarrow>
          either_case CHR ''h'' CHR ''H'' h \<and> either_case CHR ''t'' CHR ''T'' t \<and>
          either_case CHR ''t'' CHR ''T'' t' \<and> either_case CHR ''p'' CHR ''P'' p \<and>
          ((case r of s # r' \<Rightarrow> either_case CHR ''s'' CHR ''S'' s \<and> take 3 r' = ''://'' | [] \<Rightarrow> False)
           \<or> take 3 r = ''://'')
      | _ \<Rightarrow> False)"

text \<open>\<open>f.endsWith(suffix)\<close>.\<close>

definition endsWith :: "string \<Rightarrow> string \<Rightarrow> bool" where
  "endsWith s suffix = (length suffix \<le> length s \<and> drop (length s - length suffix) s = suffix)"

text \<open>\<open>a || b\<close> where \<open>a\<close> is a string or absent: the empty string is falsy.\<close>

definition or_str :: "string option \<Rightarrow> string \<Rightarrow> string" where
  "or_str a b = (case a of None \<Rightarrow> b | Some s \<Rightarrow> if s = [] then b else s)"

section \<open>The file system\<close>

text \<open>
  The file system is the list of its entries by path, in directory order. An entry is a
  regular file with its bytes and its modification time in milliseconds, or a name that
  the directory lists but \<open>stat\<close> cannot resolve (a dangling link, or a file removed
  between the listing and the \<open>stat\<close>).
\<close>

datatype node = File (content: string) (mtimeMs: rat) | Dangling

type_synonym fs = "(string \<times> node) list"

record stats =
  st_size :: nat
  st_mtimeMs :: rat

definition existsSync :: "fs \<Rightarrow> string \<Rightarrow> bool" where
  "existsSync fs p = (case map_of fs p of Some (File c m) \<Rightarrow> True | _ \<Rightarrow> False)"

definition statSync :: "fs \<Rightarrow> string \<Rightarrow> thrown + stats" where
  "statSync fs p =
     (case map_of fs p of
        Some (File c m) \<Rightarrow> Inr \<lparr>st_size = length c, st_mtimeMs = m\<rparr>
      | _ \<Rightarrow> Inl (SystemError (''ENOENT: no such file or directory, stat '' @ p)))"

text \<open>The names a directory lists: the entries one level below it.\<close>

definition entry_of :: "string \<Rightarrow> string \<Rightarrow> bool" where
  "entry_of dir p =
     (take (length dir + 1) p = dir @ ''/'' \<and> drop (length dir + 1) p \<noteq> [] \<and>
      CHR ''/'' \<notin> set (drop (length dir + 1) p))"

definition readdirSync :: "fs \<Rightarrow> string \<Rightarrow> string list" where
  "readdirSync fs dir = map (drop (length dir + 1)) (filter (entry_of dir) (map fst fs))"

text \<open>Carrying out an \<open>unlink\<close>: the entry goes; on a missing path nothing changes.\<close>

definition unlink :: "string \<Rightarrow> fs \<Rightarrow> fs" where
  "unlink p fs = filter (\<lambda>e. fst e \<noteq> p) fs"

section \<open>Requests, responses and the outside world\<close>

record request =
  body :: jsval
  headers :: "(string \<times> string) list"

datatype response =
    Json (status: nat) (success: bool) (downloadUrl: "string option") (message: "string option")
  | Send nat string
  | Pipe "(string \<times> string) list" string

text \<open>The options of the two calls of the extraction tool.\<close>

datatype flags =
    DirectUrl (dumpSingleJson: bool) (getUrl: bool) (sync: bool) (args: "string list")
  | ExtractAudio (extractAudio: bool) (audioFormat: string) (audioQuality: string)
      (output_path: string) (restrictFilenames: bool) (noPlaylist: bool) (FFMPEG_PATH: string)

text \<open>
  What the handler takes from outside the repository: the host name that \<open>new URL(u)\<close>
  parses out of a string (none when the constructor throws), the id that \<open>nanoid(10)\<close>
  draws for this request, the path of the bundled transcoder, and the extraction tool,
  which returns or throws and may write files.
\<close>

record world =
  URL_hostname :: "string \<Rightarrow> string option"
  nanoid :: string
  ffmpegStatic :: "string option"
  ytdlp :: "jsval \<Rightarrow> flags \<Rightarrow> fs \<Rightarrow> (thrown + jsval) \<times> fs"

section \<open>Helpers of server.js\<close>

definition ALLOWED_PLATFORMS :: "string set" where
  "ALLOWED_PLATFORMS = {''youtube'', ''instagram'', ''tiktok'', ''twitter''}"

definition ALLOWED_HOSTS :: "string set" where
  "ALLOWED_HOSTS =
     {''youtube.com'', ''www.youtube.com'', ''youtu.be'',
      ''instagram.com'', ''www.instagram.com'',
      ''tiktok.com'', ''www.tiktok.com'',
      ''twitter.com'', ''www.twitter.com'', ''x.com'', ''www.x.com''}"

text \<open>\<open>isAllowedUrl\<close>: whatever the constructor throws is caught and gives \<open>false\<close>.\<close>

definition isAllowedUrl :: "world \<Rightarrow> jsval \<Rightarrow> bool" where
  "isAllowedUrl w u =
     (case ToString u of
        Inl e \<Rightarrow> False
      | Inr s \<Rightarrow>
          (case URL_hostname w s of
             None \<Rightarrow> False
           | Some hostname \<Rightarrow> toLowerCase hostname \<in> ALLOWED_HOSTS))"

definition publicBase :: "request \<Rightarrow> string" where
  "publicBase req =
     (let proto = or_str (map_of (headers req) ''x-forwarded-proto'') ''https'';
          host = or_str (map_of (headers req) ''x-forwarded-host'')
                   (or_str (map_of (headers req) ''host'') [])
      in proto @ ''://'' @ host)"

section \<open>The download handler: \<open>app.post("/api/download")\<close>\<close>

text \<open>
  Only the route handlers are embedded: the rate limiter and the body parser that run
  ahead of them are libraries, and a request here is one that reached the handler.

  Lines 60 to 64: the four fields are read from \<open>req.body || {}\<close> and normalised. The
  platform and the quality go through \<open>String()\<close>; the format does not, and its
  \<open>toLowerCase\<close> is called on the value itself.
\<close>

record fields =
  platform :: string
  url :: jsval
  format :: string
  quality :: string

definition body_field :: "request \<Rightarrow> string \<Rightarrow> jsval" where
  "body_field req k = get_field (or_else (body req) (JObj [])) k"

definition normalise :: "request \<Rightarrow> thrown + fields" where
  "normalise req =
     (case ToString (or_else (body_field req ''platform'') (JStr [])) of
        Inl e \<Rightarrow> Inl e
      | Inr p \<Rightarrow>
          (case call_toLowerCase (or_else (body_field req ''format'') (JStr ''mp4'')) of
             Inl e \<Rightarrow> Inl e
           | Inr f \<Rightarrow>
               (case ToString (or_else (body_field req ''quality'') (JStr ''best'')) of
                  Inl e \<Rightarrow> Inl e
                | Inr q \<Rightarrow>
                    Inr \<lparr>platform = toLowerCase p, url = body_field req ''url'',
                         format = f, quality = q\<rparr>)))"

text \<open>Line 76: the format selector handed to the tool.\<close>

definition format_selector :: "string \<Rightarrow> string" where
  "format_selector q = (if q = ''highest'' then ''best'' else ''best'')"

definition direct_flags :: "string \<Rightarrow> flags" where
  "direct_flags q = DirectUrl False True True [''-f'', format_selector q]"

text \<open>Lines 80 and 81: the lines of the tool's output that are not empty, and the first that is a link.\<close>

definition first_link :: "string \<Rightarrow> string option" where
  "first_link out = find is_http (filter (\<lambda>l. l \<noteq> []) (split_lines out))"

text \<open>Lines 74 to 86: the direct link.\<close>

definition resolve_direct :: "world \<Rightarrow> fields \<Rightarrow> fs \<Rightarrow> (thrown + response) \<times> fs" where
  "resolve_direct w fl fs =
     (case ytdlp w (url fl) (direct_flags (quality fl)) fs of
        (Inl e, fs') \<Rightarrow> (Inl e, fs')
      | (Inr out, fs') \<Rightarrow>
          (case ToString (or_else out (JStr [])) of
             Inl e \<Rightarrow> (Inl e, fs')
           | Inr text \<Rightarrow>
               (case first_link text of
                  None \<Rightarrow> (Inr (Json 200 False None (Some ''Could not resolve media URL.'')), fs')
                | Some direct \<Rightarrow> (Inr (Json 200 True (Some direct) None), fs'))))"

definition audio_flags :: "world \<Rightarrow> string \<Rightarrow> flags" where
  "audio_flags w outFile =
     ExtractAudio True ''mp3'' ''0'' outFile True True (or_str (ffmpegStatic w) [])"

text \<open>Lines 88 to 113: the audio file and its temporary link.\<close>

definition extract_mp3 :: "world \<Rightarrow> request \<Rightarrow> fields \<Rightarrow> fs \<Rightarrow> (thrown + response) \<times> fs" where
  "extract_mp3 w req fl fs =
     (let id' = nanoid w; outFile = ''/tmp/'' @ id' @ ''.mp3'' in
      case ytdlp w (url fl) (audio_flags w outFile) fs of
        (Inl e, fs') \<Rightarrow> (Inl e, fs')
      | (Inr out, fs') \<Rightarrow>
          (if existsSync fs' outFile
           then (case statSync fs' outFile of
                   Inl e \<Rightarrow> (Inl e, fs')
                 | Inr st \<Rightarrow>
                     (if st_size st = 0
                      then (Inr (Json 200 False None (Some ''MP3 conversion failed.'')), fs')
                      else (Inr (Json 200 True (Some (publicBase req @ ''/file/'' @ id')) None), fs')))
           else (Inr (Json 200 False None (Some ''MP3 conversion failed.'')), fs')))"

text \<open>The body of the \<open>try\<close> block, lines 60 to 113.\<close>

definition download_body :: "world \<Rightarrow> request \<Rightarrow> fs \<Rightarrow> (thrown + response) \<times> fs" where
  "download_body w req fs =
     (case normalise req of
        Inl e \<Rightarrow> (Inl e, fs)
      | Inr fl \<Rightarrow>
          (if platform fl \<in> ALLOWED_PLATFORMS
           then (if isAllowedUrl w (url fl)
                 then (if format fl = ''mp3'' then extract_mp3 w req fl fs
                       else resolve_direct w fl fs)
                 else (Inr (Json 400 False None (Some ''Invalid/unsupported URL.'')), fs))
           else (Inr (Json 400 False None (Some ''Invalid platform.'')), fs)))"

text \<open>Line 117: \<open>(err && err.stderr) || (err && err.message) || "Server error"\<close>.\<close>

definition error_text :: "thrown \<Rightarrow> string" where
  "error_text err = or_str (stderr err) (or_str (err_message err) ''Server error'')"

text \<open>The handler: the body, and the \<open>catch\<close> of lines 115 to 119.\<close>

definition api_download :: "world \<Rightarrow> request \<Rightarrow> fs \<Rightarrow> response \<times> fs" where
  "api_download w req fs =
     (case download_body w req fs of
        (Inr res, fs') \<Rightarrow> (res, fs')
      | (Inl err, fs') \<Rightarrow> (Json 500 False None (Some (take 400 (error_text err))), fs'))"

section \<open>The file route and the janitor\<close>

text \<open>Line 124: \<open>req.params.id.replace(/[^a-zA-Z0-9_-]/g, "")\<close>.\<close>

definition id_char :: "char \<Rightarrow> bool" where
  "id_char c =
     (let n = (of_char c :: nat) in
      (97 \<le> n \<and> n \<le> 122) \<or> (65 \<le> n \<and> n \<le> 90) \<or> (48 \<le> n \<and> n \<le> 57) \<or>
      c = CHR ''_'' \<or> c = CHR ''-'')"

definition sanitize :: "string \<Rightarrow> string" where
  "sanitize rid = filter id_char rid"

definition file_of :: "string \<Rightarrow> string" where
  "file_of rid = ''/tmp/'' @ sanitize rid @ ''.mp3''"

text \<open>
  The server between two callbacks: the file system, the read streams that are open (each
  on the path it was opened on, and still to emit \<open>close\<close>), and the \<open>fs.unlink\<close> calls
  that were issued and are not carried out yet.
\<close>

record server =
  files :: fs
  streams :: "string list"
  unlinks :: "string list"

text \<open>
  Lines 123 to 131: the handler of \<open>GET /file/:id\<close>. The stream carries the bytes the
  file has when it is opened.
\<close>

definition get_file :: "string \<Rightarrow> server \<Rightarrow> response \<times> server" where
  "get_file rid s =
     (let id' = sanitize rid; file = ''/tmp/'' @ id' @ ''.mp3'' in
      if existsSync (files s) file
      then (Pipe [(''Content-Type'', ''audio/mpeg''),
                  (''Content-Disposition'', ''attachment; filename='' @ [CHR 0x22] @ id' @ ''.mp3'' @ [CHR 0x22])]
              (case map_of (files s) file of Some (File c m) \<Rightarrow> c | _ \<Rightarrow> []),
            s\<lparr>streams := streams s @ [file]\<rparr>)
      else (Send 404 ''File not found'', s))"

text \<open>Lines 132 to 135: the \<open>close\<close> callback of the stream at position \<open>k\<close> issues the \<open>unlink\<close> of its file.\<close>

definition stream_close :: "nat \<Rightarrow> server \<Rightarrow> server" where
  "stream_close k s =
     (if k < length (streams s)
      then s\<lparr>streams := take k (streams s) @ drop (Suc k) (streams s),
             unlinks := unlinks s @ [streams s ! k]\<rparr>
      else s)"

text \<open>The thread pool carries out the issued \<open>unlink\<close> at position \<open>k\<close>; its error, if any, is dropped by the empty callback.\<close>

definition unlink_done :: "nat \<Rightarrow> server \<Rightarrow> server" where
  "unlink_done k s =
     (if k < length (unlinks s)
      then s\<lparr>files := unlink (unlinks s ! k) (files s),
             unlinks := take k (unlinks s) @ drop (Suc k) (unlinks s)\<rparr>
      else s)"

text \<open>
  Lines 143 to 149: the loop of the janitor over the names that end in \<open>.mp3\<close>. It gives
  the paths whose \<open>unlink\<close> it issued, and what \<open>statSync\<close> threw if it threw: the throw
  leaves the loop.
\<close>

fun sweep_names :: "rat \<Rightarrow> fs \<Rightarrow> string list \<Rightarrow> string list \<times> thrown option" where
  "sweep_names now fs [] = ([], None)"
| "sweep_names now fs (f # names) =
     (let p = ''/tmp'' @ ''/'' @ f in
      case statSync fs p of
        Inl e \<Rightarrow> ([], Some e)
      | Inr st \<Rightarrow>
          (let age = now - st_mtimeMs st; r = sweep_names now fs names in
           if age > 30 * 60 * 1000 then (p # fst r, snd r) else r))"

text \<open>
  Lines 139 to 151: one run of the janitor; the \<open>catch\<close> drops what was thrown. (The list
  of entries has no state in which \<open>/tmp\<close> itself cannot be listed, so \<open>readdirSync\<close>
  always returns here.)
\<close>

definition janitor :: "rat \<Rightarrow> fs \<Rightarrow> string list" where
  "janitor now fs =
     fst (sweep_names now fs (filter (\<lambda>f. endsWith f ''.mp3'') (readdirSync fs ''/tmp'')))"

definition sweep :: "rat \<Rightarrow> server \<Rightarrow> server" where
  "sweep now s = s\<lparr>unlinks := unlinks s @ janitor now (files s)\<rparr>"

text \<open>The callbacks of the event loop around the temporary files, one at a time.\<close>

datatype event = GetFile string | StreamClose nat | UnlinkDone nat | Sweep rat

fun step :: "event \<Rightarrow> server \<Rightarrow> response option \<times> server" where
  "step (GetFile rid) s = (case get_file rid s of (r, s') \<Rightarrow> (Some r, s'))"
| "step (StreamClose k) s = (None, stream_close k s)"
| "step (UnlinkDone k) s = (None, unlink_done k s)"
| "step (Sweep now) s = (None, sweep now s)"

fun run :: "event list \<Rightarrow> server \<Rightarrow> response option list \<times> server" where
  "run [] s = ([], s)"
| "run (e # es) s =
     (case step e s of (r, s') \<Rightarrow> (case run es s' of (rs, s'') \<Rightarrow> (r # rs, s'')))"

section \<open>A sample world\<close>

text \<open>
  A world to run the handlers in: a parser that knows two addresses, and a tool that
  prints a warning and a link when asked for the direct link and writes a small file when
  asked for the audio. Three more worlds differ in the tool: it throws a given value, it
  prints a given text, or it returns without printing or writing anything. The sample
  request names the platform and the address, and takes further properties in front of
  them; a second request asks for the audio from behind a proxy that sets the forwarded
  headers.
\<close>

definition example_hostname :: "string \<Rightarrow> string option" where
  "example_hostname u =
     (if u = ''https://youtu.be/abc123'' then Some ''youtu.be''
      else if u = ''https://evil.example/clip'' then Some ''evil.example''
      else None)"

definition example_ytdlp :: "jsval \<Rightarrow> flags \<Rightarrow> fs \<Rightarrow> (thrown + jsval) \<times> fs" where
  "example_ytdlp u fl fs =
     (case fl of
        DirectUrl d g s a \<Rightarrow>
          (Inr (JStr (''WARNING: slow'' @ [CHR 0x0D, CHR 0x0A] @
                      ''https://cdn.example/v.mp4'' @ [CHR 0x0A])), fs)
      | ExtractAudio x af aq out r n ff \<Rightarrow> (Inr JUndefined, (out, File ''ID3'' 0) # fs))"

definition example_world :: world where
  "example_world =
     \<lparr>URL_hostname = example_hostname, nanoid = ''V1StGXR8_Z'',
      ffmpegStatic = Some ''/usr/bin/ffmpeg'', ytdlp = example_ytdlp\<rparr>"

definition throwing_world :: "thrown \<Rightarrow> world" where
  "throwing_world e = example_world\<lparr>ytdlp := (\<lambda>u fl fs. (Inl e, fs))\<rparr>"

definition printing_world :: "string \<Rightarrow> world" where
  "printing_world out = example_world\<lparr>ytdlp := (\<lambda>u fl fs. (Inr (JStr out), fs))\<rparr>"

definition example_tmp :: fs where
  "example_tmp =
     [(''/tmp/old.mp3'', File ''ID3'' 0), (''/tmp/new.mp3'', File ''ID3'' 3000000),
      (''/tmp/notes.txt'', File ''x'' 0)]"

definition silent_world :: world where
  "silent_world = example_world\<lparr>ytdlp := (\<lambda>u fl fs. (Inr JUndefined, fs))\<rparr>"

definition example_request :: "(string \<times> jsval) list \<Rightarrow> request" where
  "example_request extra =
     \<lparr>body = JObj (extra @ [(''platform'', JStr ''youtube''),
                              (''url'', JStr ''https://youtu.be/abc123'')]),
      headers = [(''host'', ''dl.example.org'')]\<rparr>"

definition forwarded_request :: request where
  "forwarded_request =
     \<lparr>body = JObj [(''platform'', JStr ''youtube''), (''url'', JStr ''https://youtu.be/abc123''),
                   (''format'', JStr ''mp3'')],
      headers = [(''x-forwarded-proto'', ''http''), (''x-forwarded-host'', ''media.example.net''),
                 (''host'', ''10.0.0.7:3000'')]\<rparr>"

section \<open>The file route reads inside the temporary directory only\<close>

lemma id_char_iff:
  "id_char c \<longleftrightarrow>
     c \<in> set ''abcdefghijklmnopqrstuvwxyzABCDEFGHIJKLMNOPQRSTUVWXYZ0123456789_-''"
  by (cases c) (simp add: id_char_def)

lemma slash_not_id_char: "\<not> id_char CHR ''/''"
  by (simp add: id_char_def)

lemma sanitize_no_slash: "CHR ''/'' \<notin> set (sanitize rid)"
  by (auto simp: sanitize_def slash_not_id_char)

lemma entry_of_tmp:
  "CHR ''/'' \<notin> set name \<Longrightarrow> name \<noteq> [] \<Longrightarrow> entry_of ''/tmp'' (''/tmp/'' @ name)"
  by (simp add: entry_of_def)

text \<open>
  C2. Whatever string is given as \<open>:id\<close>, the route keeps exactly its letters, digits,
  hyphens and underscores, in their order, and the one path it works on is
  \<open>/tmp/<sanitized id>.mp3\<close>, a name directly inside \<open>/tmp\<close>. The response depends on the
  file system through that path alone, the handler changes no file, and the only stream it
  opens is on that path: nothing outside the temporary directory is read.
\<close>

theorem file_route_stays_in_tmp:
  "sanitize rid =
     filter (\<lambda>c. c \<in> set ''abcdefghijklmnopqrstuvwxyzABCDEFGHIJKLMNOPQRSTUVWXYZ0123456789_-'') rid
   \<and> file_of rid = ''/tmp/'' @ sanitize rid @ ''.mp3''
   \<and> entry_of ''/tmp'' (file_of rid)
   \<and> (map_of (files s) (file_of rid) = map_of (files s') (file_of rid)
        \<longrightarrow> fst (get_file rid s) = fst (get_file rid s'))
   \<and> files (snd (get_file rid s)) = files s
   \<and> unlinks (snd (get_file rid s)) = unlinks s
   \<and> (streams (snd (get_file rid s)) = streams s \<or>
       streams (snd (get_file rid s)) = streams s @ [file_of rid])"
proof -
  have a: "sanitize rid =
     filter (\<lambda>c. c \<in> set ''abcdefghijklmnopqrstuvwxyzABCDEFGHIJKLMNOPQRSTUVWXYZ0123456789_-'') rid"
    unfolding sanitize_def by (rule filter_cong) (simp_all only: id_char_iff)
  have b: "file_of rid = ''/tmp/'' @ sanitize rid @ ''.mp3''"
    by (simp add: file_of_def)
  have "CHR ''/'' \<notin> set (sanitize rid @ ''.mp3'')"
    using sanitize_no_slash [of rid] by simp
  then have c: "entry_of ''/tmp'' (file_of rid)"
    unfolding b by (intro entry_of_tmp) simp_all
  have d: "map_of (files s) (file_of rid) = map_of (files s') (file_of rid)
        \<longrightarrow> fst (get_file rid s) = fst (get_file rid s')"
    by (auto simp: get_file_def file_of_def Let_def existsSync_def
        split: option.splits node.splits)
  have e: "files (snd (get_file rid s)) = files s"
    "unlinks (snd (get_file rid s)) = unlinks s"
    by (simp_all add: get_file_def Let_def)
  have f: "streams (snd (get_file rid s)) = streams s \<or>
       streams (snd (get_file rid s)) = streams s @ [file_of rid]"
    by (simp add: get_file_def Let_def file_of_def)
  from a b c d e f show ?thesis by blast
qed

theorem file_route_stays_in_tmp_witness:
  "file_of ''../../etc/passwd'' = ''/tmp/etcpasswd.mp3''
   \<and> fst (get_file ''../../etc/passwd''
        \<lparr>files = [(''/etc/passwd'', File ''root:x:0:0'' 0)], streams = [], unlinks = []\<rparr>)
     = fst (get_file ''../../etc/passwd'' \<lparr>files = [], streams = [], unlinks = []\<rparr>)"
proof -
  have san: "sanitize ''../../etc/passwd'' = ''etcpasswd''"
    by (simp add: sanitize_def id_char_def)
  have same: "map_of (files \<lparr>files = [(''/etc/passwd'', File ''root:x:0:0'' 0)],
                  streams = [], unlinks = []\<rparr>) (file_of ''../../etc/passwd'')
      = map_of (files \<lparr>files = [], streams = [], unlinks = []\<rparr>) (file_of ''../../etc/passwd'')"
    by (simp add: file_of_def san)
  show ?thesis
    using file_route_stays_in_tmp [of "''../../etc/passwd''"
        "\<lparr>files = [(''/etc/passwd'', File ''root:x:0:0'' 0)], streams = [], unlinks = []\<rparr>"
        "\<lparr>files = [], streams = [], unlinks = []\<rparr>"] same
    by (simp add: san)
qed

section \<open>Evaluating the sample world\<close>

lemma lower_youtube: "toLowerCase ''youtube'' = ''youtube''"
  by code_simp

lemma lower_YouTube: "toLowerCase ''YouTube'' = ''youtube''"
  by code_simp

lemma lower_mp3: "toLowerCase ''mp3'' = ''mp3''"
  by code_simp

lemma lower_MP3: "toLowerCase ''MP3'' = ''mp3''"
  by code_simp

lemma lower_mp4: "toLowerCase ''mp4'' = ''mp4''"
  by code_simp

lemma lower_youtu_be: "toLowerCase ''youtu.be'' = ''youtu.be''"
  by code_simp

lemmas eval_defs = normalise_def body_field_def or_else_def get_field_def
  call_toLowerCase_def ALLOWED_PLATFORMS_def isAllowedUrl_def
  example_world_def example_hostname_def ALLOWED_HOSTS_def example_request_def

lemma example_normalise:
  "normalise (example_request []) =
     Inr \<lparr>platform = ''youtube'', url = JStr ''https://youtu.be/abc123'',
          format = ''mp4'', quality = ''best''\<rparr>"
  by (simp add: eval_defs lower_youtube lower_mp4)

lemma example_normalise_mp3:
  "normalise (example_request [(''format'', JStr ''MP3'')]) =
     Inr \<lparr>platform = ''youtube'', url = JStr ''https://youtu.be/abc123'',
          format = ''mp3'', quality = ''best''\<rparr>"
  by (simp add: eval_defs lower_youtube lower_MP3)

lemma example_allowed: "isAllowedUrl example_world (JStr ''https://youtu.be/abc123'')"
  by (simp add: eval_defs lower_youtu_be)

lemma silent_allowed: "isAllowedUrl silent_world (JStr ''https://youtu.be/abc123'')"
  by (simp add: eval_defs lower_youtu_be silent_world_def)

lemma youtube_allowed: "''youtube'' \<in> ALLOWED_PLATFORMS"
  by (simp add: ALLOWED_PLATFORMS_def)

lemma example_nanoid: "nanoid example_world = ''V1StGXR8_Z''"
  by (simp add: example_world_def)

lemma example_headers: "headers (example_request extra) = [(''host'', ''dl.example.org'')]"
  by (simp add: example_request_def)

lemma example_split:
  "split_lines (''WARNING: slow'' @ [CHR 0x0D, CHR 0x0A] @ ''https://cdn.example/v.mp4'' @ [CHR 0x0A])
     = [''WARNING: slow'', ''https://cdn.example/v.mp4'', []]"
  by simp

lemma example_links:
  "is_http ''https://cdn.example/v.mp4''" "\<not> is_http ''WARNING: slow''" "\<not> is_http []"
  by (simp_all add: is_http_def either_case_def)

lemma throwing_throws:
  "download_body (throwing_world e) (example_request []) [] = (Inl e, [])"
  by (simp add: download_body_def eval_defs lower_youtube lower_mp4 lower_youtu_be
      throwing_world_def resolve_direct_def direct_flags_def)

lemma printing_allowed: "isAllowedUrl (printing_world out) (JStr ''https://youtu.be/abc123'')"
  by (simp add: eval_defs lower_youtu_be printing_world_def)

lemma forwarded_normalise:
  "normalise forwarded_request =
     Inr \<lparr>platform = ''youtube'', url = JStr ''https://youtu.be/abc123'',
          format = ''mp3'', quality = ''best''\<rparr>"
  by (simp add: normalise_def body_field_def or_else_def get_field_def call_toLowerCase_def
      forwarded_request_def lower_youtube lower_mp3)

section \<open>Hard failures\<close>

text \<open>
  C6. Whenever the body of the download handler throws, the handler answers with status
  500 and \<open>{success: false, message}\<close>. The message is at most 400 characters long: it is
  the first 400 characters of the error's \<open>stderr\<close> if that is a text that is not empty,
  else the first 400 characters of the error's \<open>message\<close> if that is one, and
  \<open>Server error\<close> when the error carries neither.
\<close>

theorem hard_failure_500:
  assumes "download_body w req fs = (Inl err, fs')"
  shows "\<exists>m. api_download w req fs = (Json 500 False None (Some m), fs') \<and> length m \<le> 400
           \<and> (\<forall>s. stderr err = Some s \<and> s \<noteq> [] \<longrightarrow> m = take 400 s)
           \<and> (\<forall>t. (stderr err = None \<or> stderr err = Some []) \<and> err_message err = Some t \<and> t \<noteq> []
                  \<longrightarrow> m = take 400 t)
           \<and> ((stderr err = None \<or> stderr err = Some [])
                \<and> (err_message err = None \<or> err_message err = Some [])
                \<longrightarrow> m = ''Server error'')"
  using assms
  by (auto simp: api_download_def error_text_def or_str_def)

theorem hard_failure_500_witness:
  "api_download (throwing_world (Thrown (Some (replicate 500 CHR ''E'')) (Some ''Command failed'')))
       (example_request []) []
     = (Json 500 False None (Some (replicate 400 CHR ''E'')), [])
   \<and> api_download (throwing_world (Thrown (Some []) (Some ''spawn yt-dlp ENOENT''))) (example_request []) []
     = (Json 500 False None (Some ''spawn yt-dlp ENOENT''), [])
   \<and> api_download (throwing_world (Thrown None None)) (example_request []) []
     = (Json 500 False None (Some ''Server error''), [])"
proof -
  have a: "api_download (throwing_world (Thrown (Some (replicate 500 CHR ''E'')) (Some ''Command failed'')))
       (example_request []) []
     = (Json 500 False None (Some (replicate 400 CHR ''E'')), [])"
    using hard_failure_500 [OF throwing_throws [of "Thrown (Some (replicate 500 CHR ''E'')) (Some ''Command failed'')"]]
    by auto
  have b: "api_download (throwing_world (Thrown (Some []) (Some ''spawn yt-dlp ENOENT''))) (example_request []) []
     = (Json 500 False None (Some ''spawn yt-dlp ENOENT''), [])"
    using hard_failure_500 [OF throwing_throws [of "Thrown (Some []) (Some ''spawn yt-dlp ENOENT'')"]]
    by auto
  have c: "api_download (throwing_world (Thrown None None)) (example_request []) []
     = (Json 500 False None (Some ''Server error''), [])"
    using hard_failure_500 [OF throwing_throws [of "Thrown None None"]]
    by auto
  from a b c show ?thesis by blast
qed

section \<open>The quality field\<close>

lemma direct_flags_const: "direct_flags q = DirectUrl False True True [''-f'', ''best'']"
  by (simp add: direct_flags_def format_selector_def)

lemma resolve_direct_quality:
  "url fl = url fl' \<Longrightarrow> resolve_direct w fl fs = resolve_direct w fl' fs"
  by (simp add: resolve_direct_def direct_flags_const)

lemma publicBase_headers: "headers r = headers r' \<Longrightarrow> publicBase r = publicBase r'"
  by (simp add: publicBase_def)

lemma extract_mp3_quality:
  assumes "url fl = url fl'" and "headers r = headers r'"
  shows "extract_mp3 w r fl fs = extract_mp3 w r' fl' fs"
  unfolding extract_mp3_def publicBase_headers [OF assms(2)] assms(1) ..

lemma normalise_quality:
  assumes same: "\<forall>k. k \<noteq> ''quality'' \<longrightarrow> body_field r1 k = body_field r2 k"
      and q1: "ToString (or_else (body_field r1 ''quality'') (JStr ''best'')) = Inr q1"
      and q2: "ToString (or_else (body_field r2 ''quality'') (JStr ''best'')) = Inr q2"
  shows "(\<exists>e. normalise r1 = Inl e \<and> normalise r2 = Inl e) \<or>
         (\<exists>p u f. normalise r1 = Inr \<lparr>platform = p, url = u, format = f, quality = q1\<rparr> \<and>
                  normalise r2 = Inr \<lparr>platform = p, url = u, format = f, quality = q2\<rparr>)"
proof -
  have p: "body_field r1 ''platform'' = body_field r2 ''platform''"
    and f: "body_field r1 ''format'' = body_field r2 ''format''"
    and u: "body_field r1 ''url'' = body_field r2 ''url''"
    using same by simp_all
  show ?thesis
    unfolding normalise_def p f u q1 q2
    by (auto split: sum.splits)
qed

text \<open>
  C3. Two requests that carry the same headers and the same body but for the quality
  field, each with a quality that \<open>String()\<close> accepts (any string, number, boolean or
  \<open>null\<close>, or none at all), get the same response and leave the same files: the selector
  handed to the tool for the direct link is \<open>best\<close> whatever the quality says, and the
  audio quality of the extraction is the constant \<open>0\<close>.
\<close>

theorem quality_is_ignored:
  assumes hdr: "headers r1 = headers r2"
      and same: "\<forall>k. k \<noteq> ''quality'' \<longrightarrow> body_field r1 k = body_field r2 k"
      and q1: "ToString (or_else (body_field r1 ''quality'') (JStr ''best'')) = Inr q1"
      and q2: "ToString (or_else (body_field r2 ''quality'') (JStr ''best'')) = Inr q2"
  shows "format_selector q1 = ''best'' \<and> format_selector q2 = ''best''
         \<and> direct_flags q1 = direct_flags q2
         \<and> audioQuality (audio_flags w outFile) = ''0''
         \<and> api_download w r1 fs = api_download w r2 fs"
proof -
  have sel: "format_selector q1 = ''best''" "format_selector q2 = ''best''"
    by (simp_all add: format_selector_def)
  have fl: "direct_flags q1 = direct_flags q2"
    by (simp add: direct_flags_const)
  have aq: "audioQuality (audio_flags w outFile) = ''0''"
    by (simp add: audio_flags_def)
  from normalise_quality [OF same q1 q2]
  have "download_body w r1 fs = download_body w r2 fs"
  proof
    assume "\<exists>e. normalise r1 = Inl e \<and> normalise r2 = Inl e"
    then show ?thesis by (auto simp: download_body_def)
  next
    assume "\<exists>p u f. normalise r1 = Inr \<lparr>platform = p, url = u, format = f, quality = q1\<rparr> \<and>
                  normalise r2 = Inr \<lparr>platform = p, url = u, format = f, quality = q2\<rparr>"
    then obtain p u f
      where n: "normalise r1 = Inr \<lparr>platform = p, url = u, format = f, quality = q1\<rparr>"
        "normalise r2 = Inr \<lparr>platform = p, url = u, format = f, quality = q2\<rparr>" by blast
    have d: "resolve_direct w \<lparr>platform = p, url = u, format = f, quality = q1\<rparr> fs
           = resolve_direct w \<lparr>platform = p, url = u, format = f, quality = q2\<rparr> fs"
      by (rule resolve_direct_quality) simp
    have e: "extract_mp3 w r1 \<lparr>platform = p, url = u, format = f, quality = q1\<rparr> fs
           = extract_mp3 w r2 \<lparr>platform = p, url = u, format = f, quality = q2\<rparr> fs"
      by (rule extract_mp3_quality) (simp_all add: hdr)
    show ?thesis using d e by (auto simp: download_body_def n)
  qed
  then have "api_download w r1 fs = api_download w r2 fs"
    by (simp add: api_download_def)
  with sel fl aq show ?thesis by simp
qed

theorem quality_is_ignored_witness:
  "api_download example_world (example_request [(''quality'', JStr ''highest'')]) []
     = api_download example_world (example_request [(''quality'', JNum ''720'')]) []
   \<and> direct_flags ''highest'' = direct_flags ''720''"
proof -
  have h: "headers (example_request [(''quality'', JStr ''highest'')])
         = headers (example_request [(''quality'', JNum ''720'')])"
    by (simp add: example_request_def)
  have s: "\<forall>k. k \<noteq> ''quality'' \<longrightarrow>
            body_field (example_request [(''quality'', JStr ''highest'')]) k
          = body_field (example_request [(''quality'', JNum ''720'')]) k"
    by (simp add: body_field_def or_else_def get_field_def example_request_def)
  have a: "ToString (or_else (body_field (example_request [(''quality'', JStr ''highest'')])
              ''quality'') (JStr ''best'')) = Inr ''highest''"
    by (simp add: body_field_def or_else_def get_field_def example_request_def)
  have b: "ToString (or_else (body_field (example_request [(''quality'', JNum ''720'')])
              ''quality'') (JStr ''best'')) = Inr ''720''"
    by (simp add: body_field_def or_else_def get_field_def example_request_def)
  show ?thesis
    using quality_is_ignored [OF h s a b, of example_world "[]" "[]"] by simp
qed

section \<open>The two paths of a valid request\<close>

text \<open>
  C4. For a request that passes validation with the format \<open>mp3\<close>, once the extraction
  call has returned the handler looks at the file \<open>/tmp/<id>.mp3\<close> of the id drawn for
  the request. If the file is missing or empty it answers with status 200 and
  \<open>{success: false, message: "MP3 conversion failed."}\<close>; otherwise with
  \<open>{success: true, downloadUrl}\<close>, the link being \<open><proto>://<host>/file/<id>\<close>, where the
  protocol is the header \<open>x-forwarded-proto\<close> or else \<open>https\<close>, and the host is the header
  \<open>x-forwarded-host\<close>, or else the header \<open>host\<close>, or else empty.
\<close>

theorem mp3_link_or_soft_failure:
  assumes n: "normalise req = Inr fl"
      and p: "platform fl \<in> ALLOWED_PLATFORMS"
      and u: "isAllowedUrl w (url fl)"
      and f: "format fl = ''mp3''"
      and t: "ytdlp w (url fl) (audio_flags w (''/tmp/'' @ nanoid w @ ''.mp3'')) fs = (Inr out, fs')"
  shows "api_download w req fs =
          ((case map_of fs' (''/tmp/'' @ nanoid w @ ''.mp3'') of
              Some (File c m) \<Rightarrow>
                if c = [] then Json 200 False None (Some ''MP3 conversion failed.'')
                else Json 200 True
                       (Some ((case map_of (headers req) ''x-forwarded-proto'' of
                                 Some proto \<Rightarrow> if proto = [] then ''https'' else proto
                               | None \<Rightarrow> ''https'') @ ''://'' @
                              (case map_of (headers req) ''x-forwarded-host'' of
                                 Some host \<Rightarrow>
                                   if host = []
                                   then (case map_of (headers req) ''host'' of
                                           Some h \<Rightarrow> h | None \<Rightarrow> [])
                                   else host
                               | None \<Rightarrow>
                                   (case map_of (headers req) ''host'' of
                                      Some h \<Rightarrow> h | None \<Rightarrow> [])) @
                              ''/file/'' @ nanoid w)) None
            | _ \<Rightarrow> Json 200 False None (Some ''MP3 conversion failed.'')), fs')"
proof -
  have "download_body w req fs = extract_mp3 w req fl fs"
    by (simp add: download_body_def n p u f)
  then show ?thesis
    using t
    by (auto simp: api_download_def extract_mp3_def Let_def existsSync_def statSync_def
        publicBase_def or_str_def split: option.splits node.splits)
qed

theorem mp3_link_or_soft_failure_witness:
  "api_download example_world forwarded_request []
     = (Json 200 True (Some ''http://media.example.net/file/V1StGXR8_Z'') None,
        [(''/tmp/V1StGXR8_Z.mp3'', File ''ID3'' 0)])
   \<and> api_download example_world (example_request [(''format'', JStr ''MP3'')]) []
     = (Json 200 True (Some ''https://dl.example.org/file/V1StGXR8_Z'') None,
        [(''/tmp/V1StGXR8_Z.mp3'', File ''ID3'' 0)])
   \<and> api_download silent_world (example_request [(''format'', JStr ''MP3'')]) []
     = (Json 200 False None (Some ''MP3 conversion failed.''), [])"
proof -
  have t: "ytdlp example_world (url \<lparr>platform = ''youtube'', url = JStr ''https://youtu.be/abc123'',
              format = ''mp3'', quality = ''best''\<rparr>)
            (audio_flags example_world (''/tmp/'' @ nanoid example_world @ ''.mp3'')) []
          = (Inr JUndefined, [(''/tmp/V1StGXR8_Z.mp3'', File ''ID3'' 0)])"
    by (simp add: example_world_def example_ytdlp_def audio_flags_def)
  have t': "ytdlp silent_world (url \<lparr>platform = ''youtube'', url = JStr ''https://youtu.be/abc123'',
              format = ''mp3'', quality = ''best''\<rparr>)
            (audio_flags silent_world (''/tmp/'' @ nanoid silent_world @ ''.mp3'')) []
          = (Inr JUndefined, [])"
    by (simp add: silent_world_def)
  have h: "headers forwarded_request = [(''x-forwarded-proto'', ''http''), (''x-forwarded-host'', ''media.example.net''),
                 (''host'', ''10.0.0.7:3000'')]"
    by (simp add: forwarded_request_def)
  have a: "api_download example_world forwarded_request []
     = (Json 200 True (Some ''http://media.example.net/file/V1StGXR8_Z'') None,
        [(''/tmp/V1StGXR8_Z.mp3'', File ''ID3'' 0)])"
    using mp3_link_or_soft_failure [OF forwarded_normalise _ _ _ t]
    by (simp add: youtube_allowed example_allowed h example_nanoid)
  have b: "api_download example_world (example_request [(''format'', JStr ''MP3'')]) []
     = (Json 200 True (Some ''https://dl.example.org/file/V1StGXR8_Z'') None,
        [(''/tmp/V1StGXR8_Z.mp3'', File ''ID3'' 0)])"
    using mp3_link_or_soft_failure [OF example_normalise_mp3 _ _ _ t]
    by (simp add: youtube_allowed example_allowed example_headers example_nanoid)
  have c: "api_download silent_world (example_request [(''format'', JStr ''MP3'')]) []
     = (Json 200 False None (Some ''MP3 conversion failed.''), [])"
    using mp3_link_or_soft_failure [OF example_normalise_mp3 _ _ _ t']
    by (simp add: youtube_allowed silent_allowed)
  from a b c show ?thesis by blast
qed

lemma is_http_nonempty: "is_http l \<Longrightarrow> l \<noteq> []"
  by (auto simp: is_http_def)

lemma find_filter_nonempty:
  "find is_http (filter (\<lambda>l. l \<noteq> []) ls) = find is_http ls"
  by (induction ls) (auto dest: is_http_nonempty)

lemma first_link_None:
  "first_link text = None \<longleftrightarrow> (\<forall>l \<in> set (split_lines text). \<not> is_http l)"
  by (auto simp: first_link_def find_filter_nonempty find_None_iff)

lemma find_first:
  "ls = pre @ l # post \<Longrightarrow> P l \<Longrightarrow> \<forall>x\<in>set pre. \<not> P x \<Longrightarrow> find P ls = Some l"
  by (induction pre arbitrary: ls) auto

lemma first_link_Some:
  "split_lines text = pre @ l # post \<Longrightarrow> is_http l \<Longrightarrow> \<forall>x\<in>set pre. \<not> is_http x \<Longrightarrow>
     first_link text = Some l"
  unfolding first_link_def find_filter_nonempty by (rule find_first)

text \<open>What the pattern of line 81 accepts, in terms of \<open>toLowerCase\<close>.\<close>

lemma lower_unit_cases:
  "lower_unit c = c \<or> (of_char (lower_unit c) = (of_char c :: nat) + 32)"
proof (cases "(65 \<le> (of_char c :: nat) \<and> (of_char c :: nat) \<le> 90) \<or> (192 \<le> (of_char c :: nat) \<and> (of_char c :: nat) \<le> 214) \<or> (216 \<le> (of_char c :: nat) \<and> (of_char c :: nat) \<le> 222)")
  case True
  then have "lower_unit c = char_of ((of_char c :: nat) + 32)"
    by (simp add: lower_unit_def Let_def)
  moreover have "((of_char c :: nat) + 32) mod 256 = of_char c + 32"
    using True by auto
  ultimately show ?thesis by simp
next
  case False
  then show ?thesis by (simp add: lower_unit_def Let_def)
qed

lemma lower_unit_upper:
  "lower_unit c \<noteq> c \<Longrightarrow> (65 \<le> (of_char c :: nat) \<and> (of_char c :: nat) \<le> 90) \<or> 192 \<le> (of_char c :: nat)"
  by (auto simp: lower_unit_def Let_def split: if_splits)

lemma lower_unit_letter:
  assumes d: "97 \<le> (of_char d :: nat)" "(of_char d :: nat) \<le> 122"
  shows "lower_unit c = d \<longleftrightarrow> c = d \<or> (of_char c :: nat) + 32 = of_char d"
proof
  assume l: "lower_unit c = d"
  show "c = d \<or> (of_char c :: nat) + 32 = of_char d"
    using lower_unit_cases [of c] l by auto
next
  assume "c = d \<or> (of_char c :: nat) + 32 = of_char d"
  then show "lower_unit c = d"
  proof
    assume "c = d"
    then show ?thesis using d by (simp add: lower_unit_def Let_def)
  next
    assume e: "(of_char c :: nat) + 32 = of_char d"
    then have "65 \<le> (of_char c :: nat) \<and> (of_char c :: nat) \<le> 90" using d by arith
    then have "lower_unit c = char_of ((of_char c :: nat) + 32)"
      by (simp add: lower_unit_def Let_def)
    then show ?thesis by (simp add: e)
  qed
qed

lemma lower_h: "lower_unit c = CHR ''h'' \<longleftrightarrow> c = CHR ''h'' \<or> c = CHR ''H''"
proof -
  have "(of_char c :: nat) + 32 = of_char (CHR ''h'') \<longleftrightarrow> c = CHR ''H''"
  proof -
    have "(of_char c :: nat) + 32 = of_char (CHR ''h'') \<longleftrightarrow> (of_char c :: nat) = of_char (CHR ''H'')"
      by simp
    then show ?thesis by (simp only: of_char_eq_iff)
  qed
  then show ?thesis using lower_unit_letter [of "CHR ''h''" c] by simp
qed

lemma lower_t: "lower_unit c = CHR ''t'' \<longleftrightarrow> c = CHR ''t'' \<or> c = CHR ''T''"
proof -
  have "(of_char c :: nat) + 32 = of_char (CHR ''t'') \<longleftrightarrow> (of_char c :: nat) = of_char (CHR ''T'')"
    by simp
  then have "(of_char c :: nat) + 32 = of_char (CHR ''t'') \<longleftrightarrow> c = CHR ''T''"
    by (simp only: of_char_eq_iff)
  then show ?thesis using lower_unit_letter [of "CHR ''t''" c] by simp
qed

lemma lower_p: "lower_unit c = CHR ''p'' \<longleftrightarrow> c = CHR ''p'' \<or> c = CHR ''P''"
proof -
  have "(of_char c :: nat) + 32 = of_char (CHR ''p'') \<longleftrightarrow> (of_char c :: nat) = of_char (CHR ''P'')"
    by simp
  then have "(of_char c :: nat) + 32 = of_char (CHR ''p'') \<longleftrightarrow> c = CHR ''P''"
    by (simp only: of_char_eq_iff)
  then show ?thesis using lower_unit_letter [of "CHR ''p''" c] by simp
qed

lemma lower_s: "lower_unit c = CHR ''s'' \<longleftrightarrow> c = CHR ''s'' \<or> c = CHR ''S''"
proof -
  have "(of_char c :: nat) + 32 = of_char (CHR ''s'') \<longleftrightarrow> (of_char c :: nat) = of_char (CHR ''S'')"
    by simp
  then have "(of_char c :: nat) + 32 = of_char (CHR ''s'') \<longleftrightarrow> c = CHR ''S''"
    by (simp only: of_char_eq_iff)
  then show ?thesis using lower_unit_letter [of "CHR ''s''" c] by simp
qed

lemma lower_unit_fixed:
  "lower_unit d = d \<longleftrightarrow> \<not> ((65 \<le> (of_char d :: nat) \<and> (of_char d :: nat) \<le> 90)
      \<or> (192 \<le> (of_char d :: nat) \<and> (of_char d :: nat) \<le> 214)
      \<or> (216 \<le> (of_char d :: nat) \<and> (of_char d :: nat) \<le> 222))"
proof (cases "(65 \<le> (of_char d :: nat) \<and> (of_char d :: nat) \<le> 90)
      \<or> (192 \<le> (of_char d :: nat) \<and> (of_char d :: nat) \<le> 214)
      \<or> (216 \<le> (of_char d :: nat) \<and> (of_char d :: nat) \<le> 222)")
  case True
  then have l: "lower_unit d = char_of ((of_char d :: nat) + 32)"
    by (simp add: lower_unit_def Let_def)
  have m: "((of_char d :: nat) + 32) mod 256 = of_char d + 32"
    using True by auto
  have "(of_char (lower_unit d) :: nat) = of_char d + 32"
    unfolding l by (simp add: m)
  then have "lower_unit d \<noteq> d" by auto
  with True show ?thesis by simp
next
  case False
  then show ?thesis by (auto simp: lower_unit_def Let_def)
qed

lemma lower_unit_other:
  assumes "(of_char d :: nat) < 65"
  shows "lower_unit c = d \<longleftrightarrow> c = d"
proof
  assume l: "lower_unit c = d"
  show "c = d"
  proof (cases "lower_unit c = c")
    case True
    with l show ?thesis by simp
  next
    case False
    from lower_unit_upper [OF False] lower_unit_cases [of c] False l assms
    show ?thesis by auto
  qed
next
  assume "c = d"
  then show "lower_unit c = d" using assms by (simp add: lower_unit_fixed)
qed

lemma lower_colon: "lower_unit c = CHR '':'' \<longleftrightarrow> c = CHR '':''"
  using lower_unit_other [of "CHR '':''" c] by simp

lemma lower_slash: "lower_unit c = CHR ''/'' \<longleftrightarrow> c = CHR ''/''"
  using lower_unit_other [of "CHR ''/''" c] by simp

lemma lower_sep: "toLowerCase s = ''://'' \<longleftrightarrow> s = ''://''"
  by (auto simp: toLowerCase_def map_eq_Cons_conv lower_colon lower_slash)

lemma either_case_lower:
  "either_case CHR ''h'' CHR ''H'' x \<longleftrightarrow> lower_unit x = CHR ''h''"
  "either_case CHR ''t'' CHR ''T'' x \<longleftrightarrow> lower_unit x = CHR ''t''"
  "either_case CHR ''p'' CHR ''P'' x \<longleftrightarrow> lower_unit x = CHR ''p''"
  "either_case CHR ''s'' CHR ''S'' x \<longleftrightarrow> lower_unit x = CHR ''s''"
  by (simp_all only: either_case_def lower_h lower_t lower_p lower_s)

lemma is_http_short: "length l < 4 \<Longrightarrow> \<not> is_http l"
  by (auto simp: is_http_def split: list.splits)

lemma lower_short: "length l < 4 \<Longrightarrow> toLowerCase (take n l) \<noteq> ''http://'' \<and> toLowerCase (take m l) \<noteq> ''https://''"
proof -
  assume a: "length l < 4"
  have "length (toLowerCase (take n l)) < 4" "length (toLowerCase (take m l)) < 4"
    using a by (simp_all add: toLowerCase_def)
  then show ?thesis by auto
qed

lemma is_http_iff:
  "is_http l \<longleftrightarrow> toLowerCase (take 7 l) = ''http://'' \<or> toLowerCase (take 8 l) = ''https://''"
proof (cases "length l < 4")
  case True
  then show ?thesis using is_http_short [OF True] lower_short [OF True, of 7 8] by simp
next
  case False
  then obtain a b c d r where l: "l = a # b # c # d # r"
    by (cases l; cases "tl l"; cases "tl (tl l)"; cases "tl (tl (tl l))") auto
  have sep: "map lower_unit (take 3 xs) = ''://'' \<longleftrightarrow> take 3 xs = ''://''" for xs
    using lower_sep [of "take 3 xs"] by (simp add: toLowerCase_def)
  have A: "toLowerCase (take 7 l) = ''http://'' \<longleftrightarrow>
      lower_unit a = CHR ''h'' \<and> lower_unit b = CHR ''t'' \<and> lower_unit c = CHR ''t'' \<and>
      lower_unit d = CHR ''p'' \<and> take 3 r = ''://''"
    unfolding l by (simp add: toLowerCase_def sep)
  have B: "toLowerCase (take 8 l) = ''https://'' \<longleftrightarrow>
      lower_unit a = CHR ''h'' \<and> lower_unit b = CHR ''t'' \<and> lower_unit c = CHR ''t'' \<and>
      lower_unit d = CHR ''p'' \<and>
      (case r of e # r' \<Rightarrow> lower_unit e = CHR ''s'' \<and> take 3 r' = ''://'' | [] \<Rightarrow> False)"
    unfolding l by (cases r) (simp_all add: toLowerCase_def sep)
  have C: "is_http l \<longleftrightarrow>
      lower_unit a = CHR ''h'' \<and> lower_unit b = CHR ''t'' \<and> lower_unit c = CHR ''t'' \<and>
      lower_unit d = CHR ''p'' \<and>
      ((case r of e # r' \<Rightarrow> lower_unit e = CHR ''s'' \<and> take 3 r' = ''://'' | [] \<Rightarrow> False)
       \<or> take 3 r = ''://'')"
    unfolding l by (cases r) (simp_all add: is_http_def either_case_lower)
  show ?thesis unfolding A B C by blast
qed

text \<open>How line 80 cuts the output: at every line feed, which takes the carriage return before it along.\<close>

lemma take_one_in_set: "take (Suc 0) s = [x] \<Longrightarrow> x \<in> set s"
  by (cases s) auto

lemma split_lines_no_lf: "CHR 0x0A \<notin> set s \<Longrightarrow> split_lines s = [s]"
  by (induction s) (auto split: list.splits dest: take_one_in_set)

lemma split_lines_nonempty: "split_lines s \<noteq> []"
  by (cases s) (auto split: list.splits)

lemma split_lines_crlf:
  "CHR 0x0A \<notin> set a \<Longrightarrow> split_lines (a @ [CHR 0x0D, CHR 0x0A] @ b) = a # split_lines b"
proof (induction a)
  case Nil
  then show ?case by simp
next
  case (Cons c a)
  then have ih: "split_lines (a @ [CHR 0x0D, CHR 0x0A] @ b) = a # split_lines b" by simp
  from Cons.prems have c: "c \<noteq> CHR 0x0A" by auto
  have "take 1 (a @ [CHR 0x0D, CHR 0x0A] @ b) \<noteq> [CHR 0x0A]"
    using Cons.prems by (cases a) auto
  with c ih show ?case by simp
qed

lemma split_lines_lf:
  "CHR 0x0A \<notin> set a \<Longrightarrow> (a = [] \<or> last a \<noteq> CHR 0x0D) \<Longrightarrow>
     split_lines (a @ [CHR 0x0A] @ b) = a # split_lines b"
proof (induction a)
  case Nil
  then show ?case by simp
next
  case (Cons c a)
  from Cons.prems have c: "c \<noteq> CHR 0x0A" by auto
  show ?case
  proof (cases a)
    case Nil
    with Cons.prems have "c \<noteq> CHR 0x0D" by simp
    with c Nil show ?thesis by simp
  next
    case (Cons d a')
    with Cons.prems \<open>CHR 0x0A \<notin> set (c # a)\<close> have "split_lines (a @ [CHR 0x0A] @ b) = a # split_lines b"
      using Cons.IH by auto
    moreover have "take 1 (a @ [CHR 0x0A] @ b) \<noteq> [CHR 0x0A]"
      using Cons Cons.prems by auto
    ultimately show ?thesis using c by simp
  qed
qed

text \<open>
  C5, as amended. For a request that passes validation with a format other than \<open>mp3\<close>,
  the tool is called with the selector \<open>best\<close>, and its output is cut into lines. The
  first line that starts with \<open>http://\<close> or \<open>https://\<close>, the letters in either case, is
  the result, returned as \<open>{success: true, downloadUrl}\<close>; if no line does, the answer is
  status 200 with \<open>{success: false, message: "Could not resolve media URL."}\<close>.
\<close>

theorem direct_url_first_link:
  assumes n: "normalise req = Inr fl"
      and p: "platform fl \<in> ALLOWED_PLATFORMS"
      and u: "isAllowedUrl w (url fl)"
      and f: "format fl \<noteq> ''mp3''"
      and t: "ytdlp w (url fl) (DirectUrl False True True [''-f'', ''best'']) fs = (Inr out, fs')"
      and s: "ToString (or_else out (JStr [])) = Inr text"
  shows "((\<forall>l \<in> set (split_lines text).
              toLowerCase (take 7 l) \<noteq> ''http://'' \<and> toLowerCase (take 8 l) \<noteq> ''https://'') \<longrightarrow>
            api_download w req fs
              = (Json 200 False None (Some ''Could not resolve media URL.''), fs'))
       \<and> (\<forall>pre l post.
             split_lines text = pre @ l # post
             \<and> (toLowerCase (take 7 l) = ''http://'' \<or> toLowerCase (take 8 l) = ''https://'')
             \<and> (\<forall>x\<in>set pre.
                   toLowerCase (take 7 x) \<noteq> ''http://'' \<and> toLowerCase (take 8 x) \<noteq> ''https://'') \<longrightarrow>
             api_download w req fs = (Json 200 True (Some l) None, fs'))"
proof -
  have b: "download_body w req fs = resolve_direct w fl fs"
    by (simp add: download_body_def n p u f)
  have r: "resolve_direct w fl fs =
      (case first_link text of
         None \<Rightarrow> (Inr (Json 200 False None (Some ''Could not resolve media URL.'')), fs')
       | Some direct \<Rightarrow> (Inr (Json 200 True (Some direct) None), fs'))"
    by (simp add: resolve_direct_def direct_flags_const t s)
  show ?thesis
  proof (intro conjI allI impI)
    assume "\<forall>l \<in> set (split_lines text).
        toLowerCase (take 7 l) \<noteq> ''http://'' \<and> toLowerCase (take 8 l) \<noteq> ''https://''"
    then have "\<forall>l \<in> set (split_lines text). \<not> is_http l"
      by (simp add: is_http_iff)
    then have "first_link text = None" by (simp add: first_link_None)
    then show "api_download w req fs
        = (Json 200 False None (Some ''Could not resolve media URL.''), fs')"
      by (simp add: api_download_def b r)
  next
    fix pre l post
    assume "split_lines text = pre @ l # post
             \<and> (toLowerCase (take 7 l) = ''http://'' \<or> toLowerCase (take 8 l) = ''https://'')
             \<and> (\<forall>x\<in>set pre.
                   toLowerCase (take 7 x) \<noteq> ''http://'' \<and> toLowerCase (take 8 x) \<noteq> ''https://'')"
    then have "split_lines text = pre @ l # post" "is_http l" "\<forall>x\<in>set pre. \<not> is_http x"
      by (simp_all add: is_http_iff)
    then have "first_link text = Some l" by (rule first_link_Some)
    then show "api_download w req fs = (Json 200 True (Some l) None, fs')"
      by (simp add: api_download_def b r)
  qed
qed

theorem direct_url_first_link_witness:
  "api_download example_world (example_request []) []
     = (Json 200 True (Some ''https://cdn.example/v.mp4'') None, [])
   \<and> api_download (printing_world (''see Http://mirror.example/a'' @ [CHR 0x0A] @ ''HTTP://mirror.example/b''))
        (example_request []) []
     = (Json 200 True (Some ''HTTP://mirror.example/b'') None, [])
   \<and> api_download silent_world (example_request []) []
     = (Json 200 False None (Some ''Could not resolve media URL.''), [])"
proof -
  have t: "ytdlp example_world (url \<lparr>platform = ''youtube'', url = JStr ''https://youtu.be/abc123'',
              format = ''mp4'', quality = ''best''\<rparr>)
            (DirectUrl False True True [''-f'', ''best'']) []
          = (Inr (JStr (''WARNING: slow'' @ [CHR 0x0D, CHR 0x0A] @
                        ''https://cdn.example/v.mp4'' @ [CHR 0x0A])), [])"
    by (simp add: example_world_def example_ytdlp_def)
  have s: "ToString (or_else (JStr (''WARNING: slow'' @ [CHR 0x0D, CHR 0x0A] @
                        ''https://cdn.example/v.mp4'' @ [CHR 0x0A])) (JStr []))
          = Inr (''WARNING: slow'' @ [CHR 0x0D, CHR 0x0A] @ ''https://cdn.example/v.mp4'' @ [CHR 0x0A])"
    by (simp add: or_else_def)
  have t': "ytdlp silent_world (url \<lparr>platform = ''youtube'', url = JStr ''https://youtu.be/abc123'',
              format = ''mp4'', quality = ''best''\<rparr>)
            (DirectUrl False True True [''-f'', ''best'']) []
          = (Inr JUndefined, [])"
    by (simp add: silent_world_def)
  have s': "ToString (or_else JUndefined (JStr [])) = Inr []"
    by (simp add: or_else_def)
  have t'': "ytdlp (printing_world (''see Http://mirror.example/a'' @ [CHR 0x0A] @ ''HTTP://mirror.example/b''))
            (url \<lparr>platform = ''youtube'', url = JStr ''https://youtu.be/abc123'',
              format = ''mp4'', quality = ''best''\<rparr>)
            (DirectUrl False True True [''-f'', ''best'']) []
          = (Inr (JStr (''see Http://mirror.example/a'' @ [CHR 0x0A] @ ''HTTP://mirror.example/b'')), [])"
    by (simp add: printing_world_def)
  have s'': "ToString (or_else (JStr (''see Http://mirror.example/a'' @ [CHR 0x0A] @ ''HTTP://mirror.example/b'')) (JStr []))
          = Inr (''see Http://mirror.example/a'' @ [CHR 0x0A] @ ''HTTP://mirror.example/b'')"
    by (simp add: or_else_def)
  have cut: "split_lines (''WARNING: slow'' @ [CHR 0x0D, CHR 0x0A] @
                ''https://cdn.example/v.mp4'' @ [CHR 0x0A])
           = [''WARNING: slow''] @ ''https://cdn.example/v.mp4'' # [[]]"
    using example_split by simp
  have cut'': "split_lines (''see Http://mirror.example/a'' @ [CHR 0x0A] @ ''HTTP://mirror.example/b'')
           = [''see Http://mirror.example/a''] @ ''HTTP://mirror.example/b'' # []"
    by simp
  have low: "toLowerCase (take 7 ''WARNING: slow'') = ''warning''"
    "toLowerCase (take 8 ''WARNING: slow'') = ''warning:''"
    "toLowerCase (take 8 ''https://cdn.example/v.mp4'') = ''https://''"
    "toLowerCase (take 7 ''see Http://mirror.example/a'') = ''see htt''"
    "toLowerCase (take 8 ''see Http://mirror.example/a'') = ''see http''"
    "toLowerCase (take 7 ''HTTP://mirror.example/b'') = ''http://''"
    by code_simp+
  have p: "platform \<lparr>platform = ''youtube'', url = JStr ''https://youtu.be/abc123'',
              format = ''mp4'', quality = ''best''\<rparr> \<in> ALLOWED_PLATFORMS"
    by (simp add: youtube_allowed)
  have u: "isAllowedUrl example_world (url \<lparr>platform = ''youtube'',
              url = JStr ''https://youtu.be/abc123'', format = ''mp4'', quality = ''best''\<rparr>)"
    by (simp add: example_allowed)
  have u': "isAllowedUrl silent_world (url \<lparr>platform = ''youtube'',
              url = JStr ''https://youtu.be/abc123'', format = ''mp4'', quality = ''best''\<rparr>)"
    by (simp add: silent_allowed)
  have u'': "isAllowedUrl (printing_world out) (url \<lparr>platform = ''youtube'',
              url = JStr ''https://youtu.be/abc123'', format = ''mp4'', quality = ''best''\<rparr>)" for out
    by (simp add: printing_allowed)
  have f: "format \<lparr>platform = ''youtube'', url = JStr ''https://youtu.be/abc123'',
              format = ''mp4'', quality = ''best''\<rparr> \<noteq> ''mp3''"
    by simp
  have a: "api_download example_world (example_request []) []
     = (Json 200 True (Some ''https://cdn.example/v.mp4'') None, [])"
    using direct_url_first_link [OF example_normalise p u f t s, THEN conjunct2, rule_format,
        of "[''WARNING: slow'']" "''https://cdn.example/v.mp4''" "[[]]"] cut low
    by simp
  have b: "api_download (printing_world (''see Http://mirror.example/a'' @ [CHR 0x0A] @ ''HTTP://mirror.example/b''))
        (example_request []) []
     = (Json 200 True (Some ''HTTP://mirror.example/b'') None, [])"
    using direct_url_first_link [OF example_normalise p u'' f t'' s'', THEN conjunct2, rule_format,
        of "[''see Http://mirror.example/a'']" "''HTTP://mirror.example/b''" "[]"] cut'' low
    by simp
  have c: "api_download silent_world (example_request []) []
     = (Json 200 False None (Some ''Could not resolve media URL.''), [])"
    using direct_url_first_link [OF example_normalise p u' f t' s', THEN conjunct1]
    by (simp add: toLowerCase_def)
  from a b c show ?thesis by blast
qed

text \<open>
  C5 as it was stated, with the pattern \<open>^https?://\<close> read as written, fails on a link in
  capital letters: the pattern of line 81 carries the flag \<open>i\<close>, so a line that starts
  with neither \<open>http://\<close> nor \<open>https://\<close> as written is still taken as the result.
\<close>

theorem upper_case_link_is_taken:
  "api_download (printing_world ''HTTPS://CDN.EXAMPLE/V.MP4'') (example_request []) []
     = (Json 200 True (Some ''HTTPS://CDN.EXAMPLE/V.MP4'') None, [])
   \<and> take 7 ''HTTPS://CDN.EXAMPLE/V.MP4'' \<noteq> ''http://''
   \<and> take 8 ''HTTPS://CDN.EXAMPLE/V.MP4'' \<noteq> ''https://''"
  by (simp add: api_download_def download_body_def eval_defs lower_youtube lower_mp4
      lower_youtu_be printing_world_def resolve_direct_def direct_flags_def first_link_def
      is_http_def either_case_def)

section \<open>Validation\<close>

text \<open>
  Once the three fields have been normalised, validation does what is asked of it: a
  platform outside the list, and then an address that does not parse or whose host is
  outside the list, is answered with status 400.
\<close>

lemma not_a_function_short: "not_a_function \<noteq> []" "length not_a_function \<le> 400"
  by (simp_all add: not_a_function_def)

lemma invalid_platform_400:
  "normalise req = Inr fl \<Longrightarrow> platform fl \<notin> ALLOWED_PLATFORMS \<Longrightarrow>
     api_download w req fs = (Json 400 False None (Some ''Invalid platform.''), fs)"
  by (simp add: api_download_def download_body_def)

lemma invalid_url_400:
  "normalise req = Inr fl \<Longrightarrow> \<not> isAllowedUrl w (url fl) \<Longrightarrow>
     \<exists>m. api_download w req fs = (Json 400 False None (Some m), fs)"
  by (simp add: api_download_def download_body_def)

text \<open>
  C7. The claim, that every request whose platform is outside the list is answered with
  status 400 and \<open>Invalid platform.\<close>, does not hold of the handler: the format is
  lower-cased on line 63 without the \<open>String()\<close> that lines 62 and 64 put around the
  platform and the quality, so a format that is a number throws before the platform is
  looked at, and the request \<open>{platform: "foo", url: "https://youtu.be/abc123", format: 5}\<close>
  is answered with status 500.
\<close>

theorem invalid_platform_number_format_500:
  "api_download w
     \<lparr>body = JObj [(''platform'', JStr ''foo''), (''url'', JStr ''https://youtu.be/abc123''),
                   (''format'', JNum ''5'')], headers = h\<rparr> fs
     = (Json 500 False None (Some not_a_function), fs)"
  by (simp add: api_download_def download_body_def normalise_def body_field_def or_else_def
      get_field_def call_toLowerCase_def TypeError_def error_text_def or_str_def
      not_a_function_short)

text \<open>
  C8. The claim, that every request whose address is not on an allowed host is answered
  with status 400, does not hold of the handler, for the same reason: with the format
  \<open>true\<close> the request for \<open>https://evil.example/clip\<close> on the platform \<open>youtube\<close> is
  answered with status 500, the address never being looked at.
\<close>

theorem invalid_url_boolean_format_500:
  "\<not> isAllowedUrl example_world (JStr ''https://evil.example/clip'')
   \<and> api_download example_world
       \<lparr>body = JObj [(''platform'', JStr ''youtube''), (''url'', JStr ''https://evil.example/clip''),
                     (''format'', JBool True)], headers = []\<rparr> []
     = (Json 500 False None (Some not_a_function), [])"
proof -
  have l: "toLowerCase ''evil.example'' = ''evil.example''"
    by code_simp
  have a: "\<not> isAllowedUrl example_world (JStr ''https://evil.example/clip'')"
    by (simp add: isAllowedUrl_def example_world_def example_hostname_def l ALLOWED_HOSTS_def)
  have b: "api_download example_world
       \<lparr>body = JObj [(''platform'', JStr ''youtube''), (''url'', JStr ''https://evil.example/clip''),
                     (''format'', JBool True)], headers = []\<rparr> []
     = (Json 500 False None (Some not_a_function), [])"
    by (simp add: api_download_def download_body_def normalise_def body_field_def or_else_def
        get_field_def call_toLowerCase_def TypeError_def error_text_def or_str_def
      not_a_function_short)
  from a b show ?thesis by blast
qed

section \<open>A platform that is missing or not a string\<close>

lemma empty_not_platform: "[] \<notin> ALLOWED_PLATFORMS"
  by (simp add: ALLOWED_PLATFORMS_def)

lemma normalise_platform:
  assumes "ToString (or_else (body_field req ''platform'') (JStr [])) = Inr p"
      and "call_toLowerCase (or_else (body_field req ''format'') (JStr ''mp4'')) = Inr f"
      and "ToString (or_else (body_field req ''quality'') (JStr ''best'')) = Inr q"
  shows "normalise req =
     Inr \<lparr>platform = toLowerCase p, url = body_field req ''url'', format = f, quality = q\<rparr>"
  using assms by (simp add: normalise_def)

lemma passed_platform_check:
  assumes "normalise req = Inr fl" and "platform fl \<in> ALLOWED_PLATFORMS"
  shows "fst (api_download w req fs) \<noteq> Json 400 False None (Some ''Invalid platform.'')"
proof (cases "isAllowedUrl w (url fl)")
  case False
  then show ?thesis using assms by (simp add: api_download_def download_body_def)
next
  case True
  show ?thesis
  proof (cases "format fl = ''mp3''")
    case True
    have "download_body w req fs = extract_mp3 w req fl fs"
      using assms \<open>isAllowedUrl w (url fl)\<close> True by (simp add: download_body_def)
    then show ?thesis
      by (auto simp: api_download_def extract_mp3_def Let_def
          split: prod.splits sum.splits if_splits)
  next
    case False
    have "download_body w req fs = resolve_direct w fl fs"
      using assms True False by (simp add: download_body_def)
    then show ?thesis
      by (auto simp: api_download_def resolve_direct_def
          split: prod.splits sum.splits option.splits)
  qed
qed

text \<open>
  C10, as amended. Take a request whose format is absent, falsy or a string and whose
  quality is one \<open>String()\<close> accepts. If its body is absent, or its platform is missing or
  any falsy value (\<open>null\<close>, \<open>false\<close>, zero, the empty string), the platform is coerced to
  the empty string and the request is rejected with status 400 and \<open>Invalid platform.\<close>.
  A platform that is truthy is coerced to the text \<open>String()\<close> gives it, and the request
  is rejected with \<open>Invalid platform.\<close> exactly when that text, lower-cased, is outside the
  list: an array holding the one string \<open>YouTube\<close> passes.
\<close>

theorem platform_coercion:
  assumes fm: "call_toLowerCase (or_else (body_field req ''format'') (JStr ''mp4'')) = Inr f"
      and ql: "ToString (or_else (body_field req ''quality'') (JStr ''best'')) = Inr q"
  shows "(\<not> truthy (body req) \<or> \<not> truthy (get_field (body req) ''platform'') \<longrightarrow>
            or_else (body_field req ''platform'') (JStr []) = JStr []
            \<and> api_download w req fs = (Json 400 False None (Some ''Invalid platform.''), fs))
       \<and> (\<forall>p. ToString (or_else (body_field req ''platform'') (JStr [])) = Inr p \<longrightarrow>
            (api_download w req fs = (Json 400 False None (Some ''Invalid platform.''), fs))
              = (toLowerCase p \<notin> ALLOWED_PLATFORMS))"
proof (intro conjI allI impI)
  assume pl: "\<not> truthy (body req) \<or> \<not> truthy (get_field (body req) ''platform'')"
  then have nt: "\<not> truthy (body_field req ''platform'')"
    by (auto simp: body_field_def or_else_def get_field_def)
  then show "or_else (body_field req ''platform'') (JStr []) = JStr []"
    by (simp add: or_else_def)
  then have "normalise req =
      Inr \<lparr>platform = toLowerCase [], url = body_field req ''url'', format = f, quality = q\<rparr>"
    using normalise_platform [OF _ fm ql, of "[]"] by simp
  from invalid_platform_400 [OF this]
  show "api_download w req fs = (Json 400 False None (Some ''Invalid platform.''), fs)"
    by (simp add: toLowerCase_def empty_not_platform)
next
  fix p
  assume p: "ToString (or_else (body_field req ''platform'') (JStr [])) = Inr p"
  note n = normalise_platform [OF p fm ql]
  show "(api_download w req fs = (Json 400 False None (Some ''Invalid platform.''), fs))
          = (toLowerCase p \<notin> ALLOWED_PLATFORMS)"
  proof (cases "toLowerCase p \<in> ALLOWED_PLATFORMS")
    case True
    then have "fst (api_download w req fs) \<noteq> Json 400 False None (Some ''Invalid platform.'')"
      using passed_platform_check [OF n] by simp
    with True show ?thesis by auto
  next
    case False
    then show ?thesis using invalid_platform_400 [OF n] by simp
  qed
qed

theorem platform_coercion_witness:
  "api_download example_world \<lparr>body = JUndefined, headers = []\<rparr> []
      = (Json 400 False None (Some ''Invalid platform.''), [])
   \<and> api_download example_world (example_request [(''platform'', JNum ''0'')]) []
      = (Json 400 False None (Some ''Invalid platform.''), [])
   \<and> api_download example_world (example_request [(''platform'', JBool True)]) []
      = (Json 400 False None (Some ''Invalid platform.''), [])"
proof -
  have l: "toLowerCase ''true'' = ''true''"
    by code_simp
  have a: "call_toLowerCase (or_else (body_field \<lparr>body = JUndefined, headers = []\<rparr> ''format'')
             (JStr ''mp4'')) = Inr ''mp4''"
    by (simp add: eval_defs lower_mp4)
  have b: "ToString (or_else (body_field \<lparr>body = JUndefined, headers = []\<rparr> ''quality'')
             (JStr ''best'')) = Inr ''best''"
    by (simp add: eval_defs)
  have c: "call_toLowerCase (or_else (body_field (example_request [(''platform'', v)]) ''format'')
             (JStr ''mp4'')) = Inr ''mp4''" for v
    by (simp add: eval_defs lower_mp4)
  have d: "ToString (or_else (body_field (example_request [(''platform'', v)]) ''quality'')
             (JStr ''best'')) = Inr ''best''" for v
    by (simp add: eval_defs)
  have e: "ToString (or_else (body_field (example_request [(''platform'', JBool True)]) ''platform'')
             (JStr [])) = Inr ''true''"
    by (simp add: eval_defs)
  have x: "api_download example_world \<lparr>body = JUndefined, headers = []\<rparr> []
      = (Json 400 False None (Some ''Invalid platform.''), [])"
    using platform_coercion [OF a b, of example_world "[]", THEN conjunct1] by simp
  have y: "api_download example_world (example_request [(''platform'', JNum ''0'')]) []
      = (Json 400 False None (Some ''Invalid platform.''), [])"
    using platform_coercion [OF c d, of "JNum ''0''" example_world "[]", THEN conjunct1]
    by (simp add: get_field_def example_request_def)
  have z: "api_download example_world (example_request [(''platform'', JBool True)]) []
      = (Json 400 False None (Some ''Invalid platform.''), [])"
    using platform_coercion [OF c d, of "JBool True" example_world "[]", THEN conjunct2,
        rule_format, OF e]
    by (simp add: l ALLOWED_PLATFORMS_def)
  from x y z show ?thesis by blast
qed

text \<open>
  C10 as it was stated fails on a platform that is not a string: the array
  \<open>["YouTube"]\<close> is coerced to \<open>YouTube\<close>, passes the check and the request is served.
\<close>

theorem array_platform_passes:
  "api_download example_world (example_request [(''platform'', JArr [JStr ''YouTube''])]) []
     = (Json 200 True (Some ''https://cdn.example/v.mp4'') None, [])"
  by (simp add: api_download_def download_body_def eval_defs lower_YouTube lower_mp4
      lower_youtu_be resolve_direct_def direct_flags_def example_ytdlp_def first_link_def
      is_http_def either_case_def)

section \<open>Serving a temporary file\<close>

lemma map_of_unlink: "map_of (unlink q fs) p = (if p = q then None else map_of fs p)"
  by (induction fs) (auto simp: unlink_def)

lemma map_of_fold_unlink:
  "map_of (fold unlink qs fs) p = (if p \<in> set qs then None else map_of fs p)"
  by (induction qs arbitrary: fs) (auto simp: map_of_unlink)

lemma sanitize_id: "list_all id_char fid \<Longrightarrow> sanitize fid = fid"
  by (simp add: sanitize_def list_all_iff)

lemma get_file_present:
  assumes "map_of (files s) (''/tmp/'' @ sanitize rid @ ''.mp3'') = Some (File c m)"
  shows "get_file rid s =
     (Pipe [(''Content-Type'', ''audio/mpeg''),
            (''Content-Disposition'',
             ''attachment; filename='' @ [CHR 0x22] @ sanitize rid @ ''.mp3'' @ [CHR 0x22])] c,
      s\<lparr>streams := streams s @ [''/tmp/'' @ sanitize rid @ ''.mp3'']\<rparr>)"
  using assms by (simp add: get_file_def Let_def existsSync_def)

lemma get_file_absent:
  assumes "map_of (files s) (''/tmp/'' @ sanitize rid @ ''.mp3'') = None"
  shows "get_file rid s = (Send 404 ''File not found'', s)"
  using assms by (simp add: get_file_def Let_def existsSync_def)

lemma stream_close_last:
  "stream_close (length (streams s)) (s\<lparr>streams := streams s @ [p]\<rparr>)
     = s\<lparr>unlinks := unlinks s @ [p]\<rparr>"
  by (simp add: stream_close_def)

lemma unlink_done_last:
  "unlink_done (length (unlinks s)) (s\<lparr>unlinks := unlinks s @ [p]\<rparr>)
     = s\<lparr>files := unlink p (files s)\<rparr>"
  by (simp add: unlink_done_def)

lemma run_append:
  "run (es @ es') s =
     (case run es s of (rs, s') \<Rightarrow> (case run es' s' of (rs', s'') \<Rightarrow> (rs @ rs', s'')))"
  by (induction es arbitrary: s) (auto split: prod.splits)

lemma step_keeps_absent:
  "map_of (files s) p = None \<Longrightarrow> map_of (files (snd (step e s))) p = None"
  by (cases e)
    (auto simp: get_file_def Let_def stream_close_def unlink_done_def sweep_def map_of_unlink
      split: prod.splits)

lemma run_keeps_absent:
  "map_of (files s) p = None \<Longrightarrow> map_of (files (snd (run es s))) p = None"
proof (induction es arbitrary: s)
  case Nil
  then show ?case by simp
next
  case (Cons e es)
  from step_keeps_absent [OF Cons.prems, of e]
  have "map_of (files (snd (run es (snd (step e s))))) p = None"
    by (rule Cons.IH)
  then show ?case by (auto split: prod.splits)
qed

lemma later_get_404:
  assumes "map_of (files s) (''/tmp/'' @ sanitize rid @ ''.mp3'') = None"
  shows "last (fst (run (es @ [GetFile rid]) s)) = Some (Send 404 ''File not found'')"
proof -
  obtain rs s' where r: "run es s = (rs, s')"
    by (cases "run es s")
  have "map_of (files s') (''/tmp/'' @ sanitize rid @ ''.mp3'') = None"
    using run_keeps_absent [OF assms, of es] r by simp
  then have "get_file rid s' = (Send 404 ''File not found'', s')"
    by (rule get_file_absent)
  then show ?thesis
    by (simp add: run_append r)
qed

lemma example_id: "sanitize ''V1StGXR8_Z'' = ''V1StGXR8_Z''"
  by (simp add: sanitize_def id_char_def)

text \<open>
  C1, as amended. Let the file \<open>/tmp/<id>.mp3\<close> of an id drawn by \<open>nanoid\<close> exist, as after
  a successful extraction. A \<open>GET /file/<id>\<close> answers with the bytes of the file as
  \<open>audio/mpeg\<close>; when the stream of that answer closes, the \<open>unlink\<close> of the file is issued,
  as it is at the close of any stream of the route, whatever happened to it; and once
  that \<open>unlink\<close> has been carried out, a \<open>GET\<close> on the same path answers 404, at once and
  after any further requests, closes, deletions and runs of the janitor.
\<close>

theorem served_then_deleted:
  assumes alpha: "list_all id_char fid"
      and there: "map_of (files s) (''/tmp/'' @ fid @ ''.mp3'') = Some (File c m)"
  shows "run [GetFile fid, StreamClose (length (streams s)), UnlinkDone (length (unlinks s)),
              GetFile fid] s
       = ([Some (Pipe [(''Content-Type'', ''audio/mpeg''),
                       (''Content-Disposition'',
                        ''attachment; filename='' @ [CHR 0x22] @ fid @ ''.mp3'' @ [CHR 0x22])] c),
           None, None, Some (Send 404 ''File not found'')],
          s\<lparr>files := unlink (''/tmp/'' @ fid @ ''.mp3'') (files s)\<rparr>)
     \<and> (\<forall>k < length (streams s). unlinks (stream_close k s) = unlinks s @ [streams s ! k])
     \<and> (\<forall>es. last (fst (run (es @ [GetFile fid])
                  (s\<lparr>files := unlink (''/tmp/'' @ fid @ ''.mp3'') (files s)\<rparr>)))
             = Some (Send 404 ''File not found''))"
proof -
  define p where "p = ''/tmp/'' @ fid @ ''.mp3''"
  define r where "r = Pipe [(''Content-Type'', ''audio/mpeg''),
       (''Content-Disposition'',
        ''attachment; filename='' @ [CHR 0x22] @ fid @ ''.mp3'' @ [CHR 0x22])] c"
  have san: "sanitize fid = fid"
    by (rule sanitize_id [OF alpha])
  have g1: "get_file fid s = (r, s\<lparr>streams := streams s @ [p]\<rparr>)"
    using get_file_present [of s fid c m] there by (simp add: san p_def r_def)
  have gone: "map_of (files (s\<lparr>files := unlink p (files s)\<rparr>))
      (''/tmp/'' @ sanitize fid @ ''.mp3'') = None"
    by (simp add: san map_of_unlink p_def)
  have g2: "get_file fid (s\<lparr>files := unlink p (files s)\<rparr>)
      = (Send 404 ''File not found'', s\<lparr>files := unlink p (files s)\<rparr>)"
    by (rule get_file_absent [OF gone])
  have "run [GetFile fid, StreamClose (length (streams s)), UnlinkDone (length (unlinks s)),
             GetFile fid] s
       = ([Some r, None, None, Some (Send 404 ''File not found'')],
          s\<lparr>files := unlink p (files s)\<rparr>)"
    by (simp add: g1 stream_close_last unlink_done_last g2)
  moreover have "\<forall>k < length (streams s).
      unlinks (stream_close k s) = unlinks s @ [streams s ! k]"
    by (simp add: stream_close_def)
  moreover have "\<forall>es. last (fst (run (es @ [GetFile fid]) (s\<lparr>files := unlink p (files s)\<rparr>)))
      = Some (Send 404 ''File not found'')"
    using later_get_404 [OF gone] by blast
  ultimately show ?thesis
    unfolding p_def r_def by blast
qed

theorem served_then_deleted_witness:
  "fst (run [GetFile ''V1StGXR8_Z'', StreamClose 0, UnlinkDone 0, GetFile ''V1StGXR8_Z'']
        \<lparr>files = [(''/tmp/V1StGXR8_Z.mp3'', File ''ID3'' 0)], streams = [], unlinks = []\<rparr>)
     = [Some (Pipe [(''Content-Type'', ''audio/mpeg''),
                    (''Content-Disposition'',
                     ''attachment; filename='' @ [CHR 0x22] @ ''V1StGXR8_Z.mp3'' @ [CHR 0x22])]
              ''ID3''),
        None, None, Some (Send 404 ''File not found'')]"
proof -
  have a: "list_all id_char ''V1StGXR8_Z''"
    by (simp add: id_char_def)
  have b: "map_of (files \<lparr>files = [(''/tmp/V1StGXR8_Z.mp3'', File ''ID3'' 0)],
                         streams = [], unlinks = []\<rparr>)
            (''/tmp/'' @ ''V1StGXR8_Z'' @ ''.mp3'') = Some (File ''ID3'' 0)"
    by simp
  show ?thesis
    using served_then_deleted [OF a b] by simp
qed

text \<open>
  C1 as it was stated, with a file never served twice, fails when a second
  request arrives while the stream of the first is still open: the extraction of the
  sample world leaves the file and returns its link, and two requests for it in a row are
  both answered with the bytes of the file.
\<close>

theorem served_twice:
  "api_download example_world (example_request [(''format'', JStr ''mp3'')]) []
     = (Json 200 True (Some ''https://dl.example.org/file/V1StGXR8_Z'') None,
        [(''/tmp/V1StGXR8_Z.mp3'', File ''ID3'' 0)])
   \<and> fst (run [GetFile ''V1StGXR8_Z'', GetFile ''V1StGXR8_Z'']
        \<lparr>files = [(''/tmp/V1StGXR8_Z.mp3'', File ''ID3'' 0)], streams = [], unlinks = []\<rparr>)
     = [Some (Pipe [(''Content-Type'', ''audio/mpeg''),
                    (''Content-Disposition'',
                     ''attachment; filename='' @ [CHR 0x22] @ ''V1StGXR8_Z.mp3'' @ [CHR 0x22])]
              ''ID3''),
        Some (Pipe [(''Content-Type'', ''audio/mpeg''),
                    (''Content-Disposition'',
                     ''attachment; filename='' @ [CHR 0x22] @ ''V1StGXR8_Z.mp3'' @ [CHR 0x22])]
              ''ID3'')]"
proof -
  have a: "api_download example_world (example_request [(''format'', JStr ''mp3'')]) []
     = (Json 200 True (Some ''https://dl.example.org/file/V1StGXR8_Z'') None,
        [(''/tmp/V1StGXR8_Z.mp3'', File ''ID3'' 0)])"
    by (simp add: api_download_def download_body_def eval_defs lower_youtube lower_mp3
        lower_youtu_be extract_mp3_def audio_flags_def example_ytdlp_def existsSync_def
        statSync_def publicBase_def or_str_def)
  have b: "fst (run [GetFile ''V1StGXR8_Z'', GetFile ''V1StGXR8_Z'']
        \<lparr>files = [(''/tmp/V1StGXR8_Z.mp3'', File ''ID3'' 0)], streams = [], unlinks = []\<rparr>)
     = [Some (Pipe [(''Content-Type'', ''audio/mpeg''),
                    (''Content-Disposition'',
                     ''attachment; filename='' @ [CHR 0x22] @ ''V1StGXR8_Z.mp3'' @ [CHR 0x22])]
              ''ID3''),
        Some (Pipe [(''Content-Type'', ''audio/mpeg''),
                    (''Content-Disposition'',
                     ''attachment; filename='' @ [CHR 0x22] @ ''V1StGXR8_Z.mp3'' @ [CHR 0x22])]
              ''ID3'')]"
    by (simp add: get_file_def Let_def example_id existsSync_def)
  from a b show ?thesis by blast
qed

section \<open>The janitor\<close>

lemma sweep_names_sound:
  "p \<in> set (fst (sweep_names now fs names)) \<Longrightarrow>
     \<exists>f c m. p = ''/tmp/'' @ f \<and> f \<in> set names \<and> map_of fs p = Some (File c m)
       \<and> now - m > 1800000"
proof (induction names)
  case Nil
  then show ?case by simp
next
  case (Cons f names)
  show ?case
  proof (cases "statSync fs (''/tmp/'' @ f)")
    case (Inl e)
    with Cons.prems show ?thesis by simp
  next
    case (Inr st)
    then obtain c m where fm: "map_of fs (''/tmp/'' @ f) = Some (File c m)"
      and st: "st = \<lparr>st_size = length c, st_mtimeMs = m\<rparr>"
      by (auto simp: statSync_def split: option.splits node.splits)
    from Cons.prems Inr
    have "(now - st_mtimeMs st > 1800000 \<and> p = ''/tmp/'' @ f)
        \<or> p \<in> set (fst (sweep_names now fs names))"
      by (auto simp: Let_def split: if_splits)
    then show ?thesis
    proof
      assume "now - st_mtimeMs st > 1800000 \<and> p = ''/tmp/'' @ f"
      with fm st show ?thesis by auto
    next
      assume "p \<in> set (fst (sweep_names now fs names))"
      from Cons.IH [OF this] show ?thesis by auto
    qed
  qed
qed

lemma sweep_names_complete:
  assumes "names = pre @ f # post"
      and "\<forall>g \<in> set pre. existsSync fs (''/tmp/'' @ g)"
      and "map_of fs (''/tmp/'' @ f) = Some (File c m)"
      and "now - m > 1800000"
  shows "''/tmp/'' @ f \<in> set (fst (sweep_names now fs names))"
  using assms
proof (induction pre arbitrary: names)
  case Nil
  then show ?case by (simp add: statSync_def Let_def)
next
  case (Cons g pre)
  from Cons.prems(2) obtain c' m' where g: "map_of fs (''/tmp/'' @ g) = Some (File c' m')"
    by (auto simp: existsSync_def split: option.splits node.splits)
  have "''/tmp/'' @ f \<in> set (fst (sweep_names now fs (pre @ f # post)))"
    using Cons.IH [OF refl] Cons.prems by simp
  with Cons.prems(1) g show ?case by (simp add: statSync_def Let_def)
qed

text \<open>
  C9, as amended. In every run of the janitor, a file whose age is 30 minutes or less is
  left as it is: no \<open>unlink\<close> is issued on it, and it is still there once the run's
  \<open>unlink\<close>s have been carried out. A file of \<open>/tmp\<close> with the extension \<open>.mp3\<close> whose age
  exceeds 30 minutes is deleted, provided \<open>stat\<close> succeeded on every \<open>.mp3\<close> name listed
  before it (so every such file, when \<open>stat\<close> fails on none). And the run issues an
  \<open>unlink\<close> on nothing but the \<open>.mp3\<close> names that \<open>/tmp\<close> lists.
\<close>

theorem janitor_sweep:
  "(\<forall>p c m. map_of fs p = Some (File c m) \<and> now - m \<le> 30 * 60 * 1000 \<longrightarrow>
       p \<notin> set (janitor now fs)
       \<and> map_of (fold unlink (janitor now fs) fs) p = Some (File c m))
   \<and> (\<forall>pre f post c m.
        filter (\<lambda>f. endsWith f ''.mp3'') (readdirSync fs ''/tmp'') = pre @ f # post
        \<and> (\<forall>g \<in> set pre. existsSync fs (''/tmp/'' @ g))
        \<and> map_of fs (''/tmp/'' @ f) = Some (File c m) \<and> now - m > 30 * 60 * 1000 \<longrightarrow>
       ''/tmp/'' @ f \<in> set (janitor now fs)
       \<and> map_of (fold unlink (janitor now fs) fs) (''/tmp/'' @ f) = None)
   \<and> (\<forall>p \<in> set (janitor now fs).
        \<exists>f. p = ''/tmp/'' @ f \<and> f \<in> set (readdirSync fs ''/tmp'') \<and> endsWith f ''.mp3'')"
proof (intro conjI allI impI ballI)
  fix p c m
  assume a: "map_of fs p = Some (File c m) \<and> now - m \<le> 30 * 60 * 1000"
  show "p \<notin> set (janitor now fs)"
  proof
    assume "p \<in> set (janitor now fs)"
    then obtain f c' m' where "map_of fs p = Some (File c' m')" "now - m' > 1800000"
      unfolding janitor_def using sweep_names_sound by blast
    with a show False by simp
  qed
  then show "map_of (fold unlink (janitor now fs) fs) p = Some (File c m)"
    using a by (simp add: map_of_fold_unlink)
next
  fix pre f post c m
  assume a: "filter (\<lambda>f. endsWith f ''.mp3'') (readdirSync fs ''/tmp'') = pre @ f # post
        \<and> (\<forall>g \<in> set pre. existsSync fs (''/tmp/'' @ g))
        \<and> map_of fs (''/tmp/'' @ f) = Some (File c m) \<and> now - m > 30 * 60 * 1000"
  then show "''/tmp/'' @ f \<in> set (janitor now fs)"
    unfolding janitor_def using sweep_names_complete [of _ pre f post fs c m now] by simp
  then show "map_of (fold unlink (janitor now fs) fs) (''/tmp/'' @ f) = None"
    by (simp add: map_of_fold_unlink)
next
  fix p
  assume "p \<in> set (janitor now fs)"
  then obtain f where "p = ''/tmp/'' @ f"
    "f \<in> set (filter (\<lambda>f. endsWith f ''.mp3'') (readdirSync fs ''/tmp''))"
    unfolding janitor_def using sweep_names_sound by blast
  then show "\<exists>f. p = ''/tmp/'' @ f \<and> f \<in> set (readdirSync fs ''/tmp'') \<and> endsWith f ''.mp3''"
    by auto
qed

theorem janitor_sweep_witness:
  "''/tmp/old.mp3'' \<in> set (janitor 3600000 example_tmp)
   \<and> map_of (fold unlink (janitor 3600000 example_tmp) example_tmp) ''/tmp/old.mp3'' = None
   \<and> ''/tmp/new.mp3'' \<notin> set (janitor 3600000 example_tmp)
   \<and> map_of (fold unlink (janitor 3600000 example_tmp) example_tmp) ''/tmp/new.mp3''
       = Some (File ''ID3'' 3000000)
   \<and> janitor 3600000 example_tmp = [''/tmp/old.mp3'']"
proof -
  have l: "filter (\<lambda>f. endsWith f ''.mp3'') (readdirSync example_tmp ''/tmp'')
      = [] @ ''old.mp3'' # [''new.mp3'']"
    by (simp add: example_tmp_def readdirSync_def entry_of_def endsWith_def)
  have o: "map_of example_tmp (''/tmp/'' @ ''old.mp3'') = Some (File ''ID3'' 0)"
    by (simp add: example_tmp_def)
  have n: "map_of example_tmp ''/tmp/new.mp3'' = Some (File ''ID3'' 3000000)"
    by (simp add: example_tmp_def)
  note j = janitor_sweep [of example_tmp 3600000]
  have old: "''/tmp/old.mp3'' \<in> set (janitor 3600000 example_tmp)
      \<and> map_of (fold unlink (janitor 3600000 example_tmp) example_tmp) ''/tmp/old.mp3'' = None"
    using j [THEN conjunct2, THEN conjunct1, rule_format,
        of "[]" "''old.mp3''" "[''new.mp3'']" "''ID3''" 0] l o
    by simp
  have new: "''/tmp/new.mp3'' \<notin> set (janitor 3600000 example_tmp)
      \<and> map_of (fold unlink (janitor 3600000 example_tmp) example_tmp) ''/tmp/new.mp3''
          = Some (File ''ID3'' 3000000)"
    using j [THEN conjunct1, rule_format, of "''/tmp/new.mp3''" "''ID3''" 3000000] n
    by simp
  have all: "janitor 3600000 example_tmp = [''/tmp/old.mp3'']"
    by (simp add: janitor_def example_tmp_def readdirSync_def entry_of_def endsWith_def
        statSync_def)
  from old new all show ?thesis by blast
qed

text \<open>
  C9 as it was stated, with every \<open>.mp3\<close> file older than 30 minutes deleted by
  the run, fails when \<open>stat\<close> throws on a name listed before the file: the throw leaves the
  loop, and the run, one hour after \<open>b.mp3\<close> was written, issues no \<open>unlink\<close> at all.
\<close>

theorem janitor_stops_at_failed_stat:
  "janitor 3600000 [(''/tmp/a.mp3'', Dangling), (''/tmp/b.mp3'', File ''ID3'' 0)] = []"
  by (simp add: janitor_def readdirSync_def entry_of_def endsWith_def statSync_def)

end
